theory Spec2Isabelle
  imports Complex_Main "HOL-Library.Word" "HOL-Library.Sublist"
begin

section \<open>Platform values: buffers, strings, exceptions\<close>

text \<open>
  A Node \<open>Buffer\<close> is a list of bytes. A JavaScript string is a sequence of UTF-16 code
  units. Offsets and lengths are JavaScript numbers holding non-negative integers far below
  \<open>2^53\<close>, so they are natural numbers here. Identifiers (mint addresses, wallet addresses,
  signatures) are opaque keys and are kept as \<open>string\<close>.
\<close>

type_synonym byte = "8 word"
type_synonym buffer = "byte list"
type_synonym jsstring = "16 word list"

text \<open>
  The exceptions the code can meet. \<open>RangeError\<close> is what \<open>readUInt32LE\<close>, \<open>readUInt8\<close> and
  \<open>toFixed\<close> throw; a metadata buffer that cannot be read (the specification's
  \<open>MalformedMetadata\<close>) shows up as this error. \<open>InvalidPublicKey\<close> is thrown by
  \<open>new PublicKey\<close>, \<open>DerivationError\<close> by \<open>findProgramAddress\<close>, \<open>RpcError\<close> by a failing
  request of the connection.
\<close>

datatype exn = RangeError | InvalidPublicKey | DerivationError | RpcError

definition js :: "string \<Rightarrow> jsstring" where
  "js s = map of_char s"

subsection \<open>Buffer reads\<close>

text \<open>\<open>buf.readUInt32LE(offset)\<close>: throws unless the four bytes lie inside the buffer.\<close>

definition readUInt32LE :: "buffer \<Rightarrow> nat \<Rightarrow> exn + nat" where
  "readUInt32LE data offset =
     (if offset + 4 \<le> length data
      then Inr (unat (data ! offset) + 256 * unat (data ! (offset + 1))
                + 65536 * unat (data ! (offset + 2)) + 16777216 * unat (data ! (offset + 3)))
      else Inl RangeError)"

text \<open>\<open>buf.readUInt8(offset)\<close>: throws unless the byte lies inside the buffer.\<close>

definition readUInt8 :: "buffer \<Rightarrow> nat \<Rightarrow> exn + nat" where
  "readUInt8 data offset =
     (if offset < length data then Inr (unat (data ! offset)) else Inl RangeError)"

text \<open>\<open>buf.slice(start, end)\<close> with \<open>start \<le> end\<close>: both ends are clamped to the buffer, nothing
  is thrown.\<close>

definition buf_slice :: "buffer \<Rightarrow> nat \<Rightarrow> nat \<Rightarrow> buffer" where
  "buf_slice data start stop = take (stop - start) (drop start data)"

subsection \<open>String operations\<close>

text \<open>\<open>s.replace(/\0/g, "")\<close>: every NUL code unit is removed, wherever it stands.\<close>

definition replace_nul :: "jsstring \<Rightarrow> jsstring" where
  "replace_nul s = filter (\<lambda>c. c \<noteq> 0) s"

text \<open>The code units \<open>String.prototype.trim\<close> removes: ECMAScript white space and line
  terminators.\<close>

definition is_ws :: "16 word \<Rightarrow> bool" where
  "is_ws c = (c = 0x9 \<or> c = 0xA \<or> c = 0xB \<or> c = 0xC \<or> c = 0xD \<or> c = 0x20 \<or> c = 0xA0
              \<or> c = 0x1680 \<or> (0x2000 \<le> c \<and> c \<le> 0x200A) \<or> c = 0x2028 \<or> c = 0x2029
              \<or> c = 0x202F \<or> c = 0x205F \<or> c = 0x3000 \<or> c = 0xFEFF)"

definition trim :: "jsstring \<Rightarrow> jsstring" where
  "trim s = rev (dropWhile is_ws (rev (dropWhile is_ws s)))"

section \<open>Metadata decoder\<close>

record Metadata =
  name :: jsstring
  symbol :: jsstring

text \<open>
  \<open>decodeMetaplexMetadata\<close>. The UTF-8 decoder of the platform (\<open>buf.toString("utf8")\<close>) is
  the parameter \<open>utf8\<close>. Only the two \<open>readUInt32LE\<close> calls can throw.
\<close>

definition decodeMetaplexMetadata :: "(buffer \<Rightarrow> jsstring) \<Rightarrow> buffer \<Rightarrow> exn + Metadata" where
  "decodeMetaplexMetadata utf8 data =
     (let offset = 1 + 32 + 32 in
      (case readUInt32LE data offset of
         Inl e \<Rightarrow> Inl e
       | Inr nameLength \<Rightarrow>
           (let offset = offset + 4;
                name = replace_nul (utf8 (buf_slice data offset (offset + nameLength)));
                offset = offset + nameLength
            in (case readUInt32LE data offset of
                  Inl e \<Rightarrow> Inl e
                | Inr symbolLength \<Rightarrow>
                    (let offset = offset + 4;
                         symbol = replace_nul (utf8 (buf_slice data offset (offset + symbolLength)))
                     in Inr \<lparr>name = name, symbol = symbol\<rparr>)))))"

text \<open>Helpers to state the layout: a 32-bit length written little-endian, the decoder for
  7-bit input (on which every UTF-8 decoder agrees), and the post-processing the
  specification describes (strip trailing NULs, then trim).\<close>

definition u32le :: "nat \<Rightarrow> buffer" where
  "u32le n = [of_nat (n mod 256), of_nat (n div 256 mod 256),
              of_nat (n div 65536 mod 256), of_nat (n div 16777216 mod 256)]"

definition ascii :: "buffer \<Rightarrow> jsstring" where
  "ascii bs = map ucast bs"

definition strip_trailing_nul :: "jsstring \<Rightarrow> jsstring" where
  "strip_trailing_nul s = rev (dropWhile (\<lambda>c. c = 0) (rev s))"

section \<open>JavaScript numbers\<close>

text \<open>
  A JavaScript number is an IEEE-754 binary64 value. A finite one is kept as the rational it
  denotes; \<open>NaN\<close> is what arithmetic on \<open>undefined\<close> gives. \<open>fl\<close> rounds a rational to the
  nearest double: 53 significant bits, ties to even. The exponent is not bounded here: the
  values are lamport balances, token amounts and their differences, far from overflow, and a
  difference of two doubles is never subnormal without being exact.
\<close>

fun ilog2 :: "nat \<Rightarrow> nat" where
  "ilog2 n = (if n < 2 then 0 else Suc (ilog2 (n div 2)))"

declare ilog2.simps [simp del]

text \<open>The binary exponent of a non-zero rational: the \<open>e\<close> with \<open>2^e \<le> |x| < 2^(e+1)\<close>.\<close>

definition exponent :: "rat \<Rightarrow> int" where
  "exponent x =
     (let a = \<bar>x\<bar> in
      if 1 \<le> a then int (ilog2 (nat \<lfloor>a\<rfloor>))
      else - int (ilog2 (nat (\<lceil>1 / a\<rceil> - 1))) - 1)"

definition round_half_even :: "rat \<Rightarrow> int" where
  "round_half_even x =
     (let f = \<lfloor>x\<rfloor>; d = x - of_int f in
      if d < 1 / 2 then f else if 1 / 2 < d then f + 1 else if even f then f else f + 1)"

definition pow2 :: "int \<Rightarrow> rat" where
  "pow2 k = (if 0 \<le> k then 2 ^ nat k else 1 / 2 ^ nat (- k))"

definition fl :: "rat \<Rightarrow> rat" where
  "fl x =
     (if x = 0 then 0
      else let a = \<bar>x\<bar>; u = pow2 (exponent a - 52)
           in sgn x * of_int (round_half_even (a / u)) * u)"

datatype number = NaN | Num rat

text \<open>\<open>x / y\<close> for a finite non-zero divisor, \<open>x - y\<close>, \<open>x > 0\<close> and \<open>Math.abs(x)\<close>.\<close>

fun num_div :: "number \<Rightarrow> rat \<Rightarrow> number" where
  "num_div NaN y = NaN"
| "num_div (Num x) y = Num (fl (x / y))"

fun num_sub :: "number \<Rightarrow> number \<Rightarrow> number" where
  "num_sub (Num x) (Num y) = Num (fl (x - y))"
| "num_sub _ _ = NaN"

fun num_pos :: "number \<Rightarrow> bool" where
  "num_pos NaN = False"
| "num_pos (Num x) = (0 < x)"

fun num_abs :: "number \<Rightarrow> number" where
  "num_abs NaN = NaN"
| "num_abs (Num x) = Num \<bar>x\<bar>"

section \<open>Collaborators and state\<close>

record TokenMetadata = Metadata +
  decimals :: nat

text \<open>What \<open>connection.getAccountInfo\<close> and \<open>connection.getParsedTransaction\<close> can do: reject
  (the \<open>await\<close> throws), resolve to \<open>null\<close>, or resolve to a record. Of an account only its
  \<open>data\<close> buffer is read; a \<open>Buffer\<close> is truthy even when empty.\<close>

datatype account_response = AccountThrows | AccountNull | AccountInfo buffer

text \<open>A token balance entry of a transaction: \<open>owner\<close> is optional, \<open>uiAmount\<close> (read through
  \<open>uiTokenAmount\<close>) is a number or \<open>null\<close>.\<close>

record TokenBalance =
  accountIndex :: nat
  mint :: string
  owner :: "string option"
  uiAmount :: "rat option"

text \<open>The balance-change section of a transaction. The native balances are lamports; the
  two token balance arrays may be missing or \<open>null\<close>.\<close>

record ParsedTransactionMeta =
  preBalances :: "nat list"
  postBalances :: "nat list"
  preTokenBalances :: "TokenBalance list option"
  postTokenBalances :: "TokenBalance list option"

record ParsedTransactionWithMeta =
  meta :: "ParsedTransactionMeta option"

datatype transaction_response = TransactionThrows | TransactionNull | TransactionFound ParsedTransactionWithMeta

text \<open>
  The platform the code runs against: the public-key library (\<open>new PublicKey\<close> throws on a
  string that is no key, \<open>findProgramAddress\<close> throws when no address is found), the
  connection, the UTF-8 decoder of \<open>Buffer\<close>, and the module constant
  \<open>METAPLEX_METADATA_PROGRAM\<close>.
\<close>

record 'pk platform =
  newPublicKey :: "string \<Rightarrow> 'pk option"
  toBuffer :: "'pk \<Rightarrow> buffer"
  findProgramAddress :: "buffer list \<Rightarrow> 'pk \<Rightarrow> 'pk option"
  getAccountInfo :: "'pk \<Rightarrow> account_response"
  getParsedTransaction :: "string \<Rightarrow> transaction_response"
  toString_utf8 :: "buffer \<Rightarrow> jsstring"
  METAPLEX_METADATA_PROGRAM :: 'pk

text \<open>The requests made to the collaborators, in order, and the lines written to the
  console. A token line carries the values the template prints: name, mint, action, the
  absolute change, the number of digits asked of \<open>toFixed\<close>, and the symbol.\<close>

datatype 'pk call =
    NewPublicKey string
  | FindProgramAddress "buffer list"
  | GetAccountInfo 'pk
  | GetParsedTransaction string

datatype action = Bought | Sold

datatype console_line =
    ErrTransactionNotFound string
  | ErrMetaNotAvailable
  | ErrMetadata string exn
  | LogProcessing
  | LogSol action number
  | LogToken jsstring string action rat nat jsstring
  | LogNewline

record 'pk state =
  cache :: "string \<rightharpoonup> TokenMetadata"
  calls :: "'pk call list"
  console :: "console_line list"

section \<open>Metadata resolver\<close>

definition sentinel :: TokenMetadata where
  "sentinel = \<lparr>name = js ''Unknown'', symbol = js ''UNKNOWN'', decimals = 0\<rparr>"

text \<open>\<open>fetchMintDecimals\<close>: one request; a missing account gives 0, a short one makes
  \<open>readUInt8(44)\<close> throw.\<close>

definition fetchMintDecimals :: "'pk platform \<Rightarrow> 'pk \<Rightarrow> 'pk state \<Rightarrow> (exn + nat) \<times> 'pk state" where
  "fetchMintDecimals P mintPublicKey s =
     (let s1 = s\<lparr>calls := calls s @ [GetAccountInfo mintPublicKey]\<rparr> in
      (case getAccountInfo P mintPublicKey of
         AccountThrows \<Rightarrow> (Inl RpcError, s1)
       | AccountNull \<Rightarrow> (Inr 0, s1)
       | AccountInfo data \<Rightarrow> (readUInt8 data 44, s1)))"

text \<open>The seeds given to \<open>PublicKey.findProgramAddress\<close>.\<close>

definition metadata_seeds :: "'pk platform \<Rightarrow> 'pk \<Rightarrow> buffer list" where
  "metadata_seeds P mintPublicKey =
     [map of_char ''metadata'', toBuffer P (METAPLEX_METADATA_PROGRAM P), toBuffer P mintPublicKey]"

text \<open>
  The body of the \<open>try\<close> block of \<open>fetchTokenNameAndDecimals\<close>. \<open>Inl e\<close>: the block threw \<open>e\<close>;
  \<open>Inr (Some tokenData)\<close>: it returned \<open>tokenData\<close>, having stored it in the cache;
  \<open>Inr None\<close>: it ended without returning (no account at the derived address).
\<close>

definition resolve_try ::
  "'pk platform \<Rightarrow> string \<Rightarrow> 'pk state \<Rightarrow> (exn + TokenMetadata option) \<times> 'pk state" where
  "resolve_try P mintAddress s =
     (let s1 = s\<lparr>calls := calls s @ [NewPublicKey mintAddress]\<rparr> in
      (case newPublicKey P mintAddress of
         None \<Rightarrow> (Inl InvalidPublicKey, s1)
       | Some mintPublicKey \<Rightarrow>
           (let seeds = metadata_seeds P mintPublicKey;
                s2 = s1\<lparr>calls := calls s1 @ [FindProgramAddress seeds]\<rparr>
            in (case findProgramAddress P seeds (METAPLEX_METADATA_PROGRAM P) of
                  None \<Rightarrow> (Inl DerivationError, s2)
                | Some metadataPDA \<Rightarrow>
                    (let s3 = s2\<lparr>calls := calls s2 @ [GetAccountInfo metadataPDA]\<rparr> in
                     (case getAccountInfo P metadataPDA of
                        AccountThrows \<Rightarrow> (Inl RpcError, s3)
                      | AccountNull \<Rightarrow> (Inr None, s3)
                      | AccountInfo data \<Rightarrow>
                          (case decodeMetaplexMetadata (toString_utf8 P) data of
                             Inl e \<Rightarrow> (Inl e, s3)
                           | Inr metadata \<Rightarrow>
                               (case fetchMintDecimals P mintPublicKey s3 of
                                  (Inl e, s4) \<Rightarrow> (Inl e, s4)
                                | (Inr mintDecimals, s4) \<Rightarrow>
                                    (let tokenData = \<lparr>name = trim (name metadata),
                                                      symbol = trim (symbol metadata),
                                                      decimals = mintDecimals\<rparr>
                                     in (Inr (Some tokenData),
                                         s4\<lparr>cache := (cache s4)(mintAddress \<mapsto> tokenData)\<rparr>))))))))))"

text \<open>
  \<open>fetchTokenNameAndDecimals\<close>: the cache is looked up first; otherwise the \<open>try\<close> block runs,
  the \<open>catch\<close> reports whatever it threw, and the fallback is returned. The result is a sum
  like that of every other operation, so that "does not throw" is a statement about it.
\<close>

definition fetchTokenNameAndDecimals ::
  "'pk platform \<Rightarrow> string \<Rightarrow> 'pk state \<Rightarrow> (exn + TokenMetadata) \<times> 'pk state" where
  "fetchTokenNameAndDecimals P mintAddress s =
     (case cache s mintAddress of
        Some tokenData \<Rightarrow> (Inr tokenData, s)
      | None \<Rightarrow>
          (case resolve_try P mintAddress s of
             (Inr (Some tokenData), s') \<Rightarrow> (Inr tokenData, s')
           | (Inr None, s') \<Rightarrow> (Inr sentinel, s')
           | (Inl e, s') \<Rightarrow>
               (Inr sentinel, s'\<lparr>console := console s' @ [ErrMetadata mintAddress e]\<rparr>)))"

text \<open>
  What a successful resolution reads from the chain, in one formula: the key is valid, the
  address is derived, the account there decodes to \<open>metadata\<close>, and the mint account is
  either missing (precision 0) or long enough for \<open>readUInt8(44)\<close> to give the precision.
  The record is then the trimmed name and symbol with that precision.
\<close>

abbreviation resolves_to :: "'pk platform \<Rightarrow> string \<Rightarrow> TokenMetadata \<Rightarrow> bool" where
  "resolves_to P mintAddress tokenData \<equiv>
     \<exists>mintPublicKey metadataPDA data metadata mintDecimals.
        newPublicKey P mintAddress = Some mintPublicKey
        \<and> findProgramAddress P (metadata_seeds P mintPublicKey) (METAPLEX_METADATA_PROGRAM P)
             = Some metadataPDA
        \<and> getAccountInfo P metadataPDA = AccountInfo data
        \<and> decodeMetaplexMetadata (toString_utf8 P) data = Inr metadata
        \<and> (getAccountInfo P mintPublicKey = AccountNull \<and> mintDecimals = 0
             \<or> (\<exists>mintData. getAccountInfo P mintPublicKey = AccountInfo mintData
                    \<and> readUInt8 mintData 44 = Inr mintDecimals))
        \<and> tokenData = \<lparr>name = trim (name metadata), symbol = trim (symbol metadata),
                        decimals = mintDecimals\<rparr>"

section \<open>Balance changes of a transaction\<close>

text \<open>\<open>balances[0] / 1e9\<close>: an empty array gives \<open>undefined\<close>, and \<open>undefined / 1e9\<close> is \<open>NaN\<close>.\<close>

definition first_in_SOL :: "nat list \<Rightarrow> number" where
  "first_in_SOL balances =
     num_div (case balances of [] \<Rightarrow> NaN | b # _ \<Rightarrow> Num (of_nat b)) 1000000000"

definition solBalanceChange :: "ParsedTransactionMeta \<Rightarrow> number" where
  "solBalanceChange m =
     (let preSolBalance = first_in_SOL (preBalances m);
          postSolBalance = first_in_SOL (postBalances m)
      in num_sub postSolBalance preSolBalance)"

text \<open>The native line, written when \<open>solBalanceChange !== 0\<close> (\<open>NaN !== 0\<close> holds).\<close>

definition logSolChange :: "number \<Rightarrow> console_line list" where
  "logSolChange c =
     (if c \<noteq> Num 0 then [LogSol (if num_pos c then Bought else Sold) (num_abs c)] else [])"

text \<open>\<open>x || 0\<close> for a number or \<open>null\<close>.\<close>

definition or0 :: "rat option \<Rightarrow> rat" where
  "or0 x = (case x of None \<Rightarrow> 0 | Some v \<Rightarrow> v)"

definition balanceChange :: "TokenBalance list \<Rightarrow> TokenBalance \<Rightarrow> rat" where
  "balanceChange preTokens postToken =
     (let preBalanceEntry =
            find (\<lambda>preBalance. accountIndex preBalance = accountIndex postToken) preTokens;
          preBalance = (case preBalanceEntry of None \<Rightarrow> 0 | Some e \<Rightarrow> or0 (uiAmount e));
          postBalance = or0 (uiAmount postToken)
      in fl (postBalance - preBalance))"

text \<open>\<open>Map.prototype.set\<close> on a \<open>Map\<close> kept as the list of its entries in insertion order: a
  key that is present keeps its place and gets the new value, a new key goes to the end.\<close>

fun map_set :: "('k \<times> 'v) list \<Rightarrow> 'k \<Rightarrow> 'v \<Rightarrow> ('k \<times> 'v) list" where
  "map_set [] k v = [(k, v)]"
| "map_set ((k', v') # m) k v =
     (if k' = k then (k, v) # m else (k', v') # map_set m k v)"

text \<open>The loop over \<open>postTokenBalances\<close> that fills \<open>tokenChanges\<close>. An entry of the map is
  kept as (mint, change): the \<open>mint\<close> field of the stored value repeats the key.\<close>

fun aggregate ::
  "string \<Rightarrow> TokenBalance list \<Rightarrow> TokenBalance list \<Rightarrow> (string \<times> rat) list \<Rightarrow> (string \<times> rat) list" where
  "aggregate targetWallet pre [] tokenChanges = tokenChanges"
| "aggregate targetWallet pre (postToken # rest) tokenChanges =
     (if owner postToken \<noteq> Some targetWallet then aggregate targetWallet pre rest tokenChanges
      else if balanceChange pre postToken \<noteq> 0
      then aggregate targetWallet pre rest
             (map_set tokenChanges (mint postToken) (balanceChange pre postToken))
      else aggregate targetWallet pre rest tokenChanges)"

definition tokenChanges :: "string \<Rightarrow> ParsedTransactionMeta \<Rightarrow> (string \<times> rat) list" where
  "tokenChanges targetWallet m =
     aggregate targetWallet
       (case preTokenBalances m of None \<Rightarrow> [] | Some bs \<Rightarrow> bs)
       (case postTokenBalances m of None \<Rightarrow> [] | Some bs \<Rightarrow> bs) []"

text \<open>The loop over the entries of \<open>tokenChanges\<close>. \<open>toFixed(decimals)\<close> throws a \<open>RangeError\<close>
  when asked for more than 100 digits; nothing catches it.\<close>

fun logTokenChanges ::
  "'pk platform \<Rightarrow> (string \<times> rat) list \<Rightarrow> 'pk state \<Rightarrow> (exn + unit) \<times> 'pk state" where
  "logTokenChanges P [] s = (Inr (), s)"
| "logTokenChanges P ((mintAddress, change) # rest) s =
     (case fetchTokenNameAndDecimals P mintAddress s of
        (Inl e, s1) \<Rightarrow> (Inl e, s1)
      | (Inr tokenData, s1) \<Rightarrow>
          if 100 < decimals tokenData then (Inl RangeError, s1)
          else logTokenChanges P rest
                 (s1\<lparr>console := console s1 @
                    [LogToken (name tokenData) mintAddress (if 0 < change then Bought else Sold)
                       \<bar>change\<bar> (decimals tokenData) (symbol tokenData)]\<rparr>))"

definition processTransactionForTrades ::
  "'pk platform \<Rightarrow> ParsedTransactionWithMeta \<Rightarrow> string \<Rightarrow> 'pk state \<Rightarrow> (exn + unit) \<times> 'pk state" where
  "processTransactionForTrades P tx targetWallet s =
     (case meta tx of
        None \<Rightarrow> (Inr (), s\<lparr>console := console s @ [ErrMetaNotAvailable]\<rparr>)
      | Some m \<Rightarrow>
          (let s1 = s\<lparr>console := console s @ [LogProcessing] @ logSolChange (solBalanceChange m)\<rparr>
           in (case logTokenChanges P (tokenChanges targetWallet m) s1 of
                 (Inl e, s2) \<Rightarrow> (Inl e, s2)
               | (Inr u, s2) \<Rightarrow> (Inr (), s2\<lparr>console := console s2 @ [LogNewline]\<rparr>))))"

definition processTransaction ::
  "'pk platform \<Rightarrow> string \<Rightarrow> string \<Rightarrow> 'pk state \<Rightarrow> (exn + unit) \<times> 'pk state" where
  "processTransaction P signature targetWallet s =
     (let s1 = s\<lparr>calls := calls s @ [GetParsedTransaction signature]\<rparr> in
      (case getParsedTransaction P signature of
         TransactionThrows \<Rightarrow> (Inl RpcError, s1)
       | TransactionNull \<Rightarrow> (Inr (), s1\<lparr>console := console s1 @ [ErrTransactionNotFound signature]\<rparr>)
       | TransactionFound tx \<Rightarrow> processTransactionForTrades P tx targetWallet s1))"

section \<open>Reading the output\<close>

text \<open>
  The balance changes a sequence of console lines reports: the native line is a change of
  the native asset, a token line a change of the token with that mint. Each is kept as the
  line prints it: asset, action, absolute amount.
\<close>

datatype asset = Native | Token string

fun emitted :: "console_line list \<Rightarrow> (asset \<times> action \<times> number) list" where
  "emitted [] = []"
| "emitted (LogSol a c # ls) = (Native, a, c) # emitted ls"
| "emitted (LogToken n k a c d sy # ls) = (Token k, a, Num c) # emitted ls"
| "emitted (l # ls) = emitted ls"

text \<open>What the token line of an entry of \<open>tokenChanges\<close> reports.\<close>

fun reported :: "string \<times> rat \<Rightarrow> asset \<times> action \<times> number" where
  "reported (k, c) = (Token k, if 0 < c then Bought else Sold, Num \<bar>c\<bar>)"

text \<open>The precision \<open>fetchTokenNameAndDecimals\<close> returns for a mint in a given state: the
  number of digits the token line asks of \<open>toFixed\<close>.\<close>

definition precision_of :: "'pk platform \<Rightarrow> 'pk state \<Rightarrow> string \<Rightarrow> nat" where
  "precision_of P s k =
     (case fst (fetchTokenNameAndDecimals P k s) of Inr tokenData \<Rightarrow> decimals tokenData | Inl e \<Rightarrow> 0)"

text \<open>The post-state token entries of a transaction, those among them that the loop
  records (owned by the wallet, with a change that is not zero), and the elements of a list
  in the order of their first occurrence.\<close>

definition post_entries :: "ParsedTransactionMeta \<Rightarrow> TokenBalance list" where
  "post_entries m = (case postTokenBalances m of None \<Rightarrow> [] | Some bs \<Rightarrow> bs)"

definition pre_entries :: "ParsedTransactionMeta \<Rightarrow> TokenBalance list" where
  "pre_entries m = (case preTokenBalances m of None \<Rightarrow> [] | Some bs \<Rightarrow> bs)"

definition recorded :: "string \<Rightarrow> ParsedTransactionMeta \<Rightarrow> TokenBalance list" where
  "recorded targetWallet m =
     filter (\<lambda>e. owner e = Some targetWallet \<and> balanceChange (pre_entries m) e \<noteq> 0) (post_entries m)"

fun unseen :: "'a list \<Rightarrow> 'a list \<Rightarrow> 'a list" where
  "unseen seen [] = []"
| "unseen seen (x # xs) = (if x \<in> set seen then unseen seen xs else x # unseen (x # seen) xs)"

definition first_occurrences :: "'a list \<Rightarrow> 'a list" where
  "first_occurrences xs = unseen [] xs"

section \<open>Inputs for the examples\<close>

text \<open>The addresses fetched among a sequence of requests (what a fetch counter counts).\<close>

fun fetched :: "'pk call list \<Rightarrow> 'pk list" where
  "fetched [] = []"
| "fetched (GetAccountInfo a # cs) = a # fetched cs"
| "fetched (c # cs) = fetched cs"

text \<open>A platform whose keys are strings: every string is a key, every derivation gives the
  address \<open>''PDA''\<close>, the account there is \<open>metadataAccount\<close>, every other account is
  \<open>mintAccount\<close>, and there is no transaction.\<close>

definition example_platform :: "account_response \<Rightarrow> account_response \<Rightarrow> string platform" where
  "example_platform metadataAccount mintAccount =
     \<lparr>newPublicKey = Some,
      toBuffer = map of_char,
      findProgramAddress = (\<lambda>seeds programId. Some ''PDA''),
      getAccountInfo = (\<lambda>address. if address = ''PDA'' then metadataAccount else mintAccount),
      getParsedTransaction = (\<lambda>signature. TransactionNull),
      toString_utf8 = ascii,
      METAPLEX_METADATA_PROGRAM = ''metaqbxxUerdq28cj1RbAWkYQm3ybzjb6a8bt518x1s''\<rparr>"

text \<open>A token balance entry with an owner and an amount, and a balance-change section
  with one native balance on each side.\<close>

definition token_entry :: "nat \<Rightarrow> string \<Rightarrow> string \<Rightarrow> rat \<Rightarrow> TokenBalance" where
  "token_entry i k w a = \<lparr>accountIndex = i, mint = k, owner = Some w, uiAmount = Some a\<rparr>"

definition example_meta ::
  "nat \<Rightarrow> nat \<Rightarrow> TokenBalance list \<Rightarrow> TokenBalance list \<Rightarrow> ParsedTransactionMeta" where
  "example_meta pre post pres posts =
     \<lparr>preBalances = [pre], postBalances = [post],
      preTokenBalances = Some pres, postTokenBalances = Some posts\<rparr>"

text \<open>Three accounts: a metadata account named "USDC " with a NUL of padding and symbol "U$"
  with a NUL of padding; a metadata account whose name reads "Unknown" and whose symbol
  reads "UNKNOWN"; and a mint account of 45 bytes with a given byte 44.\<close>

definition usdc_metadata_account :: buffer where
  "usdc_metadata_account =
     replicate 65 0 @ u32le 6 @ [0x55, 0x53, 0x44, 0x43, 0x20, 0] @ u32le 3 @ [0x55, 0x24, 0] @ []"

definition unknown_metadata_account :: buffer where
  "unknown_metadata_account =
     replicate 65 0 @ u32le 7 @ [0x55, 0x6E, 0x6B, 0x6E, 0x6F, 0x77, 0x6E]
       @ u32le 7 @ [0x55, 0x4E, 0x4B, 0x4E, 0x4F, 0x57, 0x4E] @ []"

definition mint_account :: "byte \<Rightarrow> buffer" where
  "mint_account b = replicate 44 0 @ [b]"

text \<open>The state at start-up: \<open>new Map()\<close>, nothing requested, nothing written.\<close>

definition initial_state :: "'pk state" where
  "initial_state = \<lparr>cache = Map.empty, calls = [], console = []\<rparr>"

section \<open>Decoder: layout and failure\<close>

lemma unat_of_nat_byte: "unat (of_nat k :: byte) = k mod 256"
  by (simp add: unat_of_nat)

lemma le32_digits:
  assumes "n < 2 ^ 32"
  shows "n mod 256 + 256 * (n div 256 mod 256) + 65536 * (n div 65536 mod 256)
          + 16777216 * (n div 16777216 mod 256) = (n::nat)"
proof -
  define a where "a = n div 256"
  define b where "b = a div 256"
  define c where "c = b div 256"
  have b_eq: "n div 65536 = b"
    unfolding a_def b_def by (simp add: div_mult2_eq)
  have c_eq: "n div 16777216 = c"
    unfolding a_def b_def c_def by (simp add: div_mult2_eq)
  have "c < 256"
    using assms unfolding c_eq [symmetric] by (simp add: less_mult_imp_div_less)
  then have c_mod: "c mod 256 = c" by simp
  have n_split: "n = n mod 256 + 256 * a"
    unfolding a_def by simp
  have a_split: "a = a mod 256 + 256 * b"
    unfolding b_def by simp
  have b_split: "b = b mod 256 + 256 * c"
    unfolding c_def by simp
  have "n mod 256 + 256 * (a mod 256) + 65536 * (b mod 256) + 16777216 * c = n"
    using n_split a_split b_split by linarith
  then show ?thesis
    by (simp add: b_eq c_eq c_mod a_def [symmetric])
qed

text \<open>Reading back a length that was written little-endian.\<close>

lemma readUInt32LE_u32le:
  assumes "n < 2 ^ 32"
  shows "readUInt32LE (xs @ u32le n @ ys) (length xs) = Inr n"
proof -
  let ?d = "xs @ u32le n @ ys"
  have len: "length xs + 4 \<le> length ?d"
    by (simp add: u32le_def)
  have n0: "unat (?d ! length xs) = n mod 256"
    by (simp add: u32le_def nth_append unat_of_nat_byte)
  have n1: "unat (?d ! (length xs + 1)) = n div 256 mod 256"
    by (simp add: u32le_def nth_append unat_of_nat_byte)
  have n2: "unat (?d ! (length xs + 2)) = n div 65536 mod 256"
    by (simp add: u32le_def nth_append unat_of_nat_byte)
  have n3: "unat (?d ! (length xs + 3)) = n div 16777216 mod 256"
    by (simp add: u32le_def nth_append unat_of_nat_byte)
  show ?thesis
    unfolding readUInt32LE_def n0 n1 n2 n3 le32_digits [OF assms]
    using len by simp
qed

lemma length_u32le [simp]: "length (u32le n) = 4"
  by (simp add: u32le_def)

lemma buf_slice_append_mid:
  "buf_slice (xs @ ys @ zs) (length xs) (length xs + length ys) = ys"
  by (simp add: buf_slice_def)

text \<open>When the NULs of a string are all trailing padding, removing every NUL is stripping
  the padding.\<close>

lemma replace_nul_padding:
  assumes "0 \<notin> set (strip_trailing_nul s)"
  shows "replace_nul s = strip_trailing_nul s"
proof -
  have split: "s = strip_trailing_nul s @ rev (takeWhile (\<lambda>c. c = 0) (rev s))"
    unfolding strip_trailing_nul_def
    by (metis rev_append rev_rev_ident takeWhile_dropWhile_id)
  have pad: "filter (\<lambda>c. c \<noteq> 0) (rev (takeWhile (\<lambda>c. c = 0) (rev s))) = []"
    by (auto simp: filter_empty_conv dest: set_takeWhileD)
  have keep: "filter (\<lambda>c. c \<noteq> 0) (strip_trailing_nul s) = strip_trailing_nul s"
    using assms by (auto simp: filter_id_conv)
  have "replace_nul s = filter (\<lambda>c. c \<noteq> 0) (strip_trailing_nul s)
                        @ filter (\<lambda>c. c \<noteq> 0) (rev (takeWhile (\<lambda>c. c = 0) (rev s)))"
    unfolding replace_nul_def by (subst split) simp
  then show ?thesis
    by (simp add: pad keep)
qed

lemma decode_layout:
  assumes hdr: "length hdr = 65" and nm: "length nm < 2 ^ 32" and sy: "length sy < 2 ^ 32"
  shows "decodeMetaplexMetadata utf8 (hdr @ u32le (length nm) @ nm @ u32le (length sy) @ sy @ rest)
         = Inr \<lparr>name = replace_nul (utf8 nm), symbol = replace_nul (utf8 sy)\<rparr>"
proof -
  let ?d = "hdr @ u32le (length nm) @ nm @ u32le (length sy) @ sy @ rest"
  have r1: "readUInt32LE ?d 65 = Inr (length nm)"
    using readUInt32LE_u32le [OF nm, of hdr] hdr by simp
  have s1: "buf_slice ?d 69 (69 + length nm) = nm"
    using buf_slice_append_mid [of "hdr @ u32le (length nm)" nm] hdr by simp
  have r2: "readUInt32LE ?d (69 + length nm) = Inr (length sy)"
    using readUInt32LE_u32le [OF sy, of "hdr @ u32le (length nm) @ nm"] hdr by simp
  have s2: "buf_slice ?d (73 + length nm) (73 + length nm + length sy) = sy"
    using buf_slice_append_mid [of "hdr @ u32le (length nm) @ nm @ u32le (length sy)" sy rest] hdr
    by (simp add: add.commute)
  have e1: "(1::nat) + 32 + 32 = 65" and e2: "(65::nat) + 4 = 69"
    and e3: "69 + length nm + 4 = 73 + length nm"
    by simp_all
  show ?thesis
    unfolding decodeMetaplexMetadata_def Let_def
    by (simp only: e1 e2 e3 r1 r2 s1 s2 sum.case)
qed

lemma decode_cases:
  "(length data < 69 \<longrightarrow> decodeMetaplexMetadata utf8 data = Inl RangeError)
   \<and> (\<forall>L1. readUInt32LE data 65 = Inr L1 \<and> length data < 73 + L1
          \<longrightarrow> decodeMetaplexMetadata utf8 data = Inl RangeError)
   \<and> (\<forall>L1 L2. readUInt32LE data 65 = Inr L1 \<and> readUInt32LE data (69 + L1) = Inr L2
          \<longrightarrow> 73 + L1 \<le> length data
              \<and> decodeMetaplexMetadata utf8 data =
                  Inr \<lparr>name = replace_nul (utf8 (take L1 (drop 69 data))),
                       symbol = replace_nul (utf8 (take L2 (drop (73 + L1) data)))\<rparr>)"
  by (auto simp: decodeMetaplexMetadata_def readUInt32LE_def buf_slice_def add.commute
           split: if_splits)

text \<open>
  Claim C2, as the code has it. For every well-formed buffer (a 65-byte header, the length
  of the name and the name, the length of the symbol and the symbol, then anything),
  \<open>decodeMetaplexMetadata\<close> returns the name and the symbol with every NUL removed; where the
  NULs of a text are all trailing padding, that is the text with its padding stripped.
  White space is kept.
\<close>

theorem decode_well_formed:
  assumes "length hdr = 65" and "length nm < 2 ^ 32" and "length sy < 2 ^ 32"
  shows "decodeMetaplexMetadata utf8 (hdr @ u32le (length nm) @ nm @ u32le (length sy) @ sy @ rest)
           = Inr \<lparr>name = replace_nul (utf8 nm), symbol = replace_nul (utf8 sy)\<rparr>
         \<and> (0 \<notin> set (strip_trailing_nul (utf8 nm))
              \<longrightarrow> replace_nul (utf8 nm) = strip_trailing_nul (utf8 nm))
         \<and> (0 \<notin> set (strip_trailing_nul (utf8 sy))
              \<longrightarrow> replace_nul (utf8 sy) = strip_trailing_nul (utf8 sy))"
  using decode_layout [OF assms] replace_nul_padding by blast

text \<open>The theorem at a record named "USDC" padded with two NULs, symbol "U$" padded with
  one, followed by two more bytes.\<close>

theorem decode_well_formed_witness:
  "decodeMetaplexMetadata ascii
     (replicate 65 0 @ u32le 6 @ [0x55, 0x53, 0x44, 0x43, 0, 0] @ u32le 3 @ [0x55, 0x24, 0] @ [7, 7])
     = Inr \<lparr>name = [0x55, 0x53, 0x44, 0x43], symbol = [0x55, 0x24]\<rparr>
   \<and> strip_trailing_nul (ascii [0x55, 0x53, 0x44, 0x43, 0, 0]) = [0x55, 0x53, 0x44, 0x43]
   \<and> strip_trailing_nul (ascii [0x55, 0x24, 0]) = [0x55, 0x24]"
proof -
  let ?nm = "[0x55, 0x53, 0x44, 0x43, 0, 0] :: buffer"
  let ?sy = "[0x55, 0x24, 0] :: buffer"
  have st: "strip_trailing_nul (ascii ?nm) = [0x55, 0x53, 0x44, 0x43]"
    "strip_trailing_nul (ascii ?sy) = [0x55, 0x24]"
    by (simp_all add: strip_trailing_nul_def ascii_def)
  have rn: "replace_nul (ascii ?nm) = [0x55, 0x53, 0x44, 0x43]"
    "replace_nul (ascii ?sy) = [0x55, 0x24]"
    by (simp_all add: replace_nul_def ascii_def)
  have n: "length ?nm = 6" "length ?sy = 3"
    by simp_all
  have h: "length (replicate 65 (0::byte)) = 65" "length ?nm < 2 ^ 32" "length ?sy < 2 ^ 32"
    by simp_all
  note w = decode_well_formed [OF h, of ascii "[7, 7]", unfolded n rn]
  from w st show ?thesis
    by blast
qed

text \<open>
  Claim C2 as stated fails twice: a name with a leading space comes back with the space
  (nothing is trimmed), and a NUL inside a name is removed although it is not trailing.
\<close>

theorem decode_trim_counterexample:
  "decodeMetaplexMetadata ascii (replicate 65 0 @ u32le 2 @ [0x20, 0x41] @ u32le 1 @ [0x42] @ [])
     = Inr \<lparr>name = [0x20, 0x41], symbol = [0x42]\<rparr>
   \<and> trim (strip_trailing_nul (ascii [0x20, 0x41])) = [0x41]
   \<and> decodeMetaplexMetadata ascii (replicate 65 0 @ u32le 3 @ [0x41, 0, 0x42] @ u32le 1 @ [0x42] @ [])
     = Inr \<lparr>name = [0x41, 0x42], symbol = [0x42]\<rparr>
   \<and> trim (strip_trailing_nul (ascii [0x41, 0, 0x42])) = [0x41, 0, 0x42]"
proof -
  have h: "length (replicate 65 (0::byte)) = 65" "length [0x20, 0x41 :: byte] < 2 ^ 32"
    "length [0x41, 0, 0x42 :: byte] < 2 ^ 32" "length [0x42 :: byte] < 2 ^ 32"
    by simp_all
  have n: "length [0x20, 0x41 :: byte] = 2" "length [0x41, 0, 0x42 :: byte] = 3"
    "length [0x42 :: byte] = 1"
    by simp_all
  have rn: "replace_nul (ascii [0x20, 0x41]) = [0x20, 0x41]"
    "replace_nul (ascii [0x41, 0, 0x42]) = [0x41, 0x42]"
    "replace_nul (ascii [0x42]) = [0x42]"
    by (simp_all add: replace_nul_def ascii_def)
  have t: "trim (strip_trailing_nul (ascii [0x20, 0x41])) = [0x41]"
    "trim (strip_trailing_nul (ascii [0x41, 0, 0x42])) = [0x41, 0, 0x42]"
    by (simp_all add: ascii_def trim_def strip_trailing_nul_def is_ws_def)
  note a = decode_layout [OF h(1) h(2) h(4), of ascii "[]", unfolded n rn]
  note b = decode_layout [OF h(1) h(3) h(4), of ascii "[]", unfolded n rn]
  from a b t show ?thesis
    by blast
qed

text \<open>
  Claim C3, as the code has it. \<open>decodeMetaplexMetadata\<close> fails exactly when one of its two
  length fields does not lie inside the buffer: when the buffer has fewer than 69 bytes, or
  fewer than \<open>73 + L1\<close> bytes for the name length \<open>L1\<close> it declares (so whenever it holds
  fewer bytes than the declared name). When both length fields can be read it returns a
  result, also when the symbol bytes are cut short: the symbol is what is there.
\<close>

theorem decode_short_buffer:
  "(length data < 69 \<longrightarrow> decodeMetaplexMetadata utf8 data = Inl RangeError)
   \<and> (\<forall>L1. readUInt32LE data 65 = Inr L1 \<and> length data < 73 + L1
          \<longrightarrow> decodeMetaplexMetadata utf8 data = Inl RangeError)
   \<and> (\<forall>L1 L2. readUInt32LE data 65 = Inr L1 \<and> readUInt32LE data (69 + L1) = Inr L2
          \<longrightarrow> 73 + L1 \<le> length data
              \<and> decodeMetaplexMetadata utf8 data =
                  Inr \<lparr>name = replace_nul (utf8 (take L1 (drop 69 data))),
                       symbol = replace_nul (utf8 (take L2 (drop (73 + L1) data)))\<rparr>)"
  by (rule decode_cases)

text \<open>The theorem at a buffer that declares a name of 3 bytes and holds 2 of them, and at
  an empty buffer.\<close>

theorem decode_short_buffer_witness:
  "readUInt32LE (replicate 65 0 @ u32le 3 @ [0x41, 0x42]) 65 = Inr 3
   \<and> length (replicate 65 (0::byte) @ u32le 3 @ [0x41, 0x42]) < 73 + 3
   \<and> decodeMetaplexMetadata ascii (replicate 65 0 @ u32le 3 @ [0x41, 0x42]) = Inl RangeError
   \<and> decodeMetaplexMetadata ascii [] = Inl RangeError"
proof -
  let ?d = "replicate 65 (0::byte) @ u32le 3 @ [0x41, 0x42]"
  have r: "readUInt32LE ?d 65 = Inr 3"
    using readUInt32LE_u32le [of 3 "replicate 65 0" "[0x41, 0x42]"] by simp
  have l: "length ?d < 73 + 3"
    by simp
  have e: "length ([] :: buffer) < 69"
    by simp
  from decode_short_buffer [of ?d ascii] r l
  have "decodeMetaplexMetadata ascii ?d = Inl RangeError"
    by blast
  moreover from decode_short_buffer [of "[]" ascii] e
  have "decodeMetaplexMetadata ascii [] = Inl RangeError"
    by blast
  ultimately show ?thesis
    using r l by blast
qed

text \<open>
  Claim C3 as stated fails where only the symbol is cut short: the buffer declares a symbol
  of 5 bytes and holds 2, so it is shorter than the prefix and the two fields it declares
  (75 bytes instead of 78), and the decoder returns the 2 bytes as the symbol.
\<close>

theorem decode_short_symbol_counterexample:
  "length (replicate 65 (0::byte) @ u32le 0 @ u32le 5 @ [0x41, 0x42]) < 65 + (4 + 0) + (4 + 5)
   \<and> decodeMetaplexMetadata ascii (replicate 65 0 @ u32le 0 @ u32le 5 @ [0x41, 0x42])
       = Inr \<lparr>name = [], symbol = [0x41, 0x42]\<rparr>"
proof -
  let ?d = "replicate 65 (0::byte) @ u32le 0 @ u32le 5 @ [0x41, 0x42]"
  have l: "length ?d < 65 + (4 + 0) + (4 + 5)"
    by simp
  have r1: "readUInt32LE ?d 65 = Inr 0"
    using readUInt32LE_u32le [of 0 "replicate 65 0" "u32le 5 @ [0x41, 0x42]"] by simp
  have r2: "readUInt32LE ?d (69 + 0) = Inr 5"
    using readUInt32LE_u32le [of 5 "replicate 65 0 @ u32le 0" "[0x41, 0x42]"] by simp
  have nm: "replace_nul (ascii (take 0 (drop 69 ?d))) = []"
    by (simp add: replace_nul_def ascii_def)
  have sy: "replace_nul (ascii (take 5 (drop (73 + 0) ?d))) = [0x41, 0x42]"
    by (simp add: replace_nul_def ascii_def)
  from decode_cases [of ?d ascii] r1 r2
  have "decodeMetaplexMetadata ascii ?d =
          Inr \<lparr>name = replace_nul (ascii (take 0 (drop 69 ?d))),
               symbol = replace_nul (ascii (take 5 (drop (73 + 0) ?d)))\<rparr>"
    by blast
  then show ?thesis
    unfolding nm sy using l by blast
qed

section \<open>Resolver: cache, fallback, failures\<close>

lemma fetchMintDecimals_state:
  "fetchMintDecimals P pk s = (r, s') \<Longrightarrow> s' = s\<lparr>calls := calls s @ [GetAccountInfo pk]\<rparr>"
  by (auto simp: fetchMintDecimals_def Let_def split: account_response.splits)

text \<open>The three ways a call of \<open>fetchTokenNameAndDecimals\<close> can end: a cache hit, the
  fallback with the cache as it was, or a decoded record that is stored and returned.\<close>

lemma fetch_outcomes:
  assumes "fetchTokenNameAndDecimals P mintAddress s = (r, s')"
  shows "(\<exists>tokenData. cache s mintAddress = Some tokenData \<and> r = Inr tokenData \<and> s' = s)
       \<or> (cache s mintAddress = None \<and> r = Inr sentinel \<and> cache s' = cache s)
       \<or> (\<exists>mintPublicKey metadataPDA data metadata tokenData.
             cache s mintAddress = None
             \<and> newPublicKey P mintAddress = Some mintPublicKey
             \<and> findProgramAddress P (metadata_seeds P mintPublicKey) (METAPLEX_METADATA_PROGRAM P)
                 = Some metadataPDA
             \<and> getAccountInfo P metadataPDA = AccountInfo data
             \<and> decodeMetaplexMetadata (toString_utf8 P) data = Inr metadata
             \<and> name tokenData = trim (name metadata)
             \<and> symbol tokenData = trim (symbol metadata)
             \<and> r = Inr tokenData
             \<and> cache s' = (cache s)(mintAddress \<mapsto> tokenData))"
proof (cases "cache s mintAddress")
  case (Some tokenData)
  with assms show ?thesis
    by (simp add: fetchTokenNameAndDecimals_def)
next
  case None
  with assms show ?thesis
    by (auto simp: fetchTokenNameAndDecimals_def resolve_try_def Let_def fetchMintDecimals_def
             split: option.splits account_response.splits sum.splits prod.splits)
qed

lemma fetch_absent:
  assumes "cache s mintAddress = None"
    and "newPublicKey P mintAddress = Some mintPublicKey"
    and "findProgramAddress P (metadata_seeds P mintPublicKey) (METAPLEX_METADATA_PROGRAM P)
           = Some metadataPDA"
    and "getAccountInfo P metadataPDA = AccountNull"
  shows "fetchTokenNameAndDecimals P mintAddress s =
           (Inr sentinel,
            s\<lparr>calls := calls s @ [NewPublicKey mintAddress,
                                    FindProgramAddress (metadata_seeds P mintPublicKey),
                                    GetAccountInfo metadataPDA]\<rparr>)"
  using assms by (simp add: fetchTokenNameAndDecimals_def resolve_try_def Let_def)

lemma fetched_append: "fetched (xs @ ys) = fetched xs @ fetched ys"
  by (induction xs rule: fetched.induct) simp_all

lemma example_platform_simps:
  "newPublicKey (example_platform a b) = Some"
  "toBuffer (example_platform a b) = map of_char"
  "findProgramAddress (example_platform a b) seeds programId = Some ''PDA''"
  "getAccountInfo (example_platform a b) ''PDA'' = a"
  "address \<noteq> ''PDA'' \<Longrightarrow> getAccountInfo (example_platform a b) address = b"
  "getParsedTransaction (example_platform a b) signature = TransactionNull"
  "toString_utf8 (example_platform a b) = ascii"
  by (simp_all add: example_platform_def)

text \<open>
  Claim C1, as the code has it. When the identifier is not in the cache and the fetch of the
  derived metadata address returns no account, \<open>fetchTokenNameAndDecimals\<close> returns the
  fallback and stores nothing: the cache is as it was, and only the three requests are
  added to the state. A second call with the same identifier therefore returns the
  fallback after deriving the address and fetching the account once more.
\<close>

theorem absent_metadata_not_cached:
  assumes "cache s mintAddress = None"
    and "newPublicKey P mintAddress = Some mintPublicKey"
    and "findProgramAddress P (metadata_seeds P mintPublicKey) (METAPLEX_METADATA_PROGRAM P)
           = Some metadataPDA"
    and "getAccountInfo P metadataPDA = AccountNull"
  shows "fetchTokenNameAndDecimals P mintAddress s =
           (Inr sentinel,
            s\<lparr>calls := calls s @ [NewPublicKey mintAddress,
                                    FindProgramAddress (metadata_seeds P mintPublicKey),
                                    GetAccountInfo metadataPDA]\<rparr>)
         \<and> fetchTokenNameAndDecimals P mintAddress
               (snd (fetchTokenNameAndDecimals P mintAddress s)) =
           (Inr sentinel,
            s\<lparr>calls := calls s @ [NewPublicKey mintAddress,
                                    FindProgramAddress (metadata_seeds P mintPublicKey),
                                    GetAccountInfo metadataPDA,
                                    NewPublicKey mintAddress,
                                    FindProgramAddress (metadata_seeds P mintPublicKey),
                                    GetAccountInfo metadataPDA]\<rparr>)"
proof -
  let ?s1 = "s\<lparr>calls := calls s @ [NewPublicKey mintAddress,
                                      FindProgramAddress (metadata_seeds P mintPublicKey),
                                      GetAccountInfo metadataPDA]\<rparr>"
  have first: "fetchTokenNameAndDecimals P mintAddress s = (Inr sentinel, ?s1)"
    by (rule fetch_absent [OF assms])
  have "cache ?s1 mintAddress = None"
    using assms(1) by simp
  from fetch_absent [OF this assms(2-4)]
  have "fetchTokenNameAndDecimals P mintAddress ?s1 =
          (Inr sentinel,
           ?s1\<lparr>calls := calls ?s1 @ [NewPublicKey mintAddress,
                                        FindProgramAddress (metadata_seeds P mintPublicKey),
                                        GetAccountInfo metadataPDA]\<rparr>)" .
  with first show ?thesis
    by simp
qed

text \<open>The theorem on the example platform with no account anywhere, from start-up.\<close>

theorem absent_metadata_not_cached_witness:
  "fetchTokenNameAndDecimals (example_platform AccountNull AccountNull) ''Mint'' initial_state =
     (Inr sentinel,
      initial_state\<lparr>calls :=
        [NewPublicKey ''Mint'',
         FindProgramAddress (metadata_seeds (example_platform AccountNull AccountNull) ''Mint''),
         GetAccountInfo ''PDA'']\<rparr>)"
proof -
  let ?P = "example_platform AccountNull AccountNull"
  have "cache (initial_state :: string state) ''Mint'' = None"
    by (simp add: initial_state_def)
  moreover have "newPublicKey ?P ''Mint'' = Some ''Mint''"
    by (simp add: example_platform_simps)
  moreover have "findProgramAddress ?P (metadata_seeds ?P ''Mint'') (METAPLEX_METADATA_PROGRAM ?P)
                   = Some ''PDA''"
    by (simp add: example_platform_simps)
  moreover have "getAccountInfo ?P ''PDA'' = AccountNull"
    by (simp add: example_platform_simps)
  ultimately show ?thesis
    using absent_metadata_not_cached [of initial_state "''Mint''" ?P "''Mint''" "''PDA''"]
    by (simp add: initial_state_def)
qed

text \<open>
  Claim C1 as stated fails: on the example platform with no account anywhere the first call
  returns the fallback, the cache has no entry for the identifier afterwards, and the
  second call fetches the derived address again.
\<close>

theorem sentinel_caching_counterexample:
  "fst (fetchTokenNameAndDecimals (example_platform AccountNull AccountNull) ''Mint''
          initial_state) = Inr sentinel
   \<and> cache (snd (fetchTokenNameAndDecimals (example_platform AccountNull AccountNull) ''Mint''
                   initial_state)) ''Mint'' = None
   \<and> fetched (calls (snd (fetchTokenNameAndDecimals (example_platform AccountNull AccountNull)
                            ''Mint'' initial_state))) = [''PDA'']
   \<and> fetched (calls (snd (fetchTokenNameAndDecimals (example_platform AccountNull AccountNull)
                            ''Mint''
                            (snd (fetchTokenNameAndDecimals
                                    (example_platform AccountNull AccountNull) ''Mint''
                                    initial_state))))) = [''PDA'', ''PDA'']"
proof -
  let ?P = "example_platform AccountNull AccountNull"
  let ?X = "[NewPublicKey ''Mint'', FindProgramAddress (metadata_seeds ?P ''Mint''),
             GetAccountInfo ''PDA'']"
  have step: "cache s ''Mint'' = None \<Longrightarrow>
       fetchTokenNameAndDecimals ?P ''Mint'' s = (Inr sentinel, s\<lparr>calls := calls s @ ?X\<rparr>)"
    for s :: "string state"
    by (rule fetch_absent) (simp_all add: example_platform_simps)
  have one: "fetchTokenNameAndDecimals ?P ''Mint'' initial_state =
               (Inr sentinel, initial_state\<lparr>calls := ?X\<rparr>)"
    using step [of initial_state] by (simp add: initial_state_def)
  have two: "fetchTokenNameAndDecimals ?P ''Mint'' (initial_state\<lparr>calls := ?X\<rparr>) =
               (Inr sentinel, initial_state\<lparr>calls := ?X @ ?X\<rparr>)"
    using step [of "initial_state\<lparr>calls := ?X\<rparr>"] by (simp add: initial_state_def)
  show ?thesis
    unfolding one two snd_conv fst_conv
    by (simp add: initial_state_def)
qed

text \<open>The try block, exactly: it stores and returns the record the chain resolves to, or it
  changes no cache entry and returns no record.\<close>

lemma resolve_try_exact:
  assumes "resolve_try P mintAddress s = (r, s')"
  shows "(\<exists>tokenData. resolves_to P mintAddress tokenData \<and> r = Inr (Some tokenData)
            \<and> cache s' = (cache s)(mintAddress \<mapsto> tokenData))
         \<or> ((\<forall>tokenData. \<not> resolves_to P mintAddress tokenData)
             \<and> (\<forall>tokenData. r \<noteq> Inr (Some tokenData)) \<and> cache s' = cache s)"
  using assms
  by (auto simp: resolve_try_def Let_def fetchMintDecimals_def
           split: option.splits account_response.splits sum.splits prod.splits)

text \<open>A call, exactly: a cache hit that changes nothing; or, on a miss, the record the chain
  resolves to, stored and returned; or, on a miss with nothing to resolve, the fallback
  with the cache as it was.\<close>

lemma fetch_exact:
  assumes run: "fetchTokenNameAndDecimals P mintAddress s = (r, s')"
  shows "(\<exists>tokenData. cache s mintAddress = Some tokenData \<and> r = Inr tokenData \<and> s' = s)
       \<or> (cache s mintAddress = None
           \<and> (\<exists>tokenData. resolves_to P mintAddress tokenData \<and> r = Inr tokenData
                  \<and> cache s' = (cache s)(mintAddress \<mapsto> tokenData)))
       \<or> (cache s mintAddress = None
           \<and> (\<forall>tokenData. \<not> resolves_to P mintAddress tokenData)
           \<and> r = Inr sentinel \<and> cache s' = cache s)"
proof (cases "cache s mintAddress")
  case (Some tokenData)
  with run have "r = Inr tokenData" "s' = s"
    by (simp_all add: fetchTokenNameAndDecimals_def)
  with Some show ?thesis
    by simp
next
  case None
  obtain q t where rt: "resolve_try P mintAddress s = (q, t)"
    by (cases "resolve_try P mintAddress s")
  from resolve_try_exact [OF rt] consider
    (stored) tokenData where "resolves_to P mintAddress tokenData" "q = Inr (Some tokenData)"
      "cache t = (cache s)(mintAddress \<mapsto> tokenData)"
    | (unresolved) "\<forall>tokenData. \<not> resolves_to P mintAddress tokenData"
      "\<forall>tokenData. q \<noteq> Inr (Some tokenData)" "cache t = cache s"
    by (elim disjE exE conjE) simp_all
  then show ?thesis
  proof cases
    case stored
    from run None rt stored(2) have "r = Inr tokenData" "s' = t"
      by (simp_all add: fetchTokenNameAndDecimals_def)
    with stored(1,3) have "resolves_to P mintAddress tokenData \<and> r = Inr tokenData
                  \<and> cache s' = (cache s)(mintAddress \<mapsto> tokenData)"
      by simp
    then have "\<exists>tokenData. resolves_to P mintAddress tokenData \<and> r = Inr tokenData
                  \<and> cache s' = (cache s)(mintAddress \<mapsto> tokenData)"
      by (rule exI)
    with None show ?thesis
      by simp
  next
    case unresolved
    have "r = Inr sentinel \<and> cache s' = cache t"
    proof (cases q)
      case (Inl e)
      with run None rt show ?thesis
        by (auto simp: fetchTokenNameAndDecimals_def)
    next
      case (Inr outcome)
      with unresolved(2) have "outcome = None"
        by (cases outcome) simp_all
      with run None rt Inr show ?thesis
        by (auto simp: fetchTokenNameAndDecimals_def)
    qed
    with None unresolved(1,3) show ?thesis
      by simp
  qed
qed

text \<open>The chain resolves an identifier to at most one record.\<close>

lemma resolves_unique:
  assumes "resolves_to P mintAddress a" and "resolves_to P mintAddress b"
  shows "a = b"
  using assms by (elim exE conjE disjE) simp_all

text \<open>
  Claim C4. Whatever the collaborators do, \<open>fetchTokenNameAndDecimals\<close> does not throw: it
  returns a record. On a cache hit that is the cached record. On a miss it is the real
  metadata whenever the chain resolves the identifier (valid key, derived address, an
  account that decodes, a mint account that is missing or holds a byte 44): the trimmed
  name and symbol of the decoded account, with the byte at offset 44 of the mint account as
  precision, or 0 when there is no mint account. In every other case it is the fallback.
\<close>

theorem resolver_never_throws:
  "\<exists>tokenData s'.
      fetchTokenNameAndDecimals P mintAddress s = (Inr tokenData, s')
      \<and> (cache s mintAddress = Some tokenData
         \<or> (cache s mintAddress = None \<and> resolves_to P mintAddress tokenData)
         \<or> (cache s mintAddress = None \<and> tokenData = sentinel
             \<and> (\<forall>other. \<not> resolves_to P mintAddress other)))"
proof -
  obtain r s' where run: "fetchTokenNameAndDecimals P mintAddress s = (r, s')"
    by (cases "fetchTokenNameAndDecimals P mintAddress s")
  from fetch_exact [OF run] consider
    (hit) tokenData where "cache s mintAddress = Some tokenData" "r = Inr tokenData"
    | (resolved) tokenData where "cache s mintAddress = None"
        "resolves_to P mintAddress tokenData" "r = Inr tokenData"
    | (fallback) "cache s mintAddress = None" "\<forall>other. \<not> resolves_to P mintAddress other"
        "r = Inr sentinel"
    by (elim disjE exE conjE) simp_all
  then show ?thesis
  proof cases
    case hit
    then show ?thesis
      unfolding run by (intro exI [of _ tokenData] exI [of _ s']) simp
  next
    case resolved
    then show ?thesis
      unfolding run by (intro exI [of _ tokenData] exI [of _ s']) simp
  next
    case fallback
    then show ?thesis
      unfolding run by (intro exI [of _ sentinel] exI [of _ s']) simp
  qed
qed

lemma fetch_resolves:
  assumes miss: "cache s mintAddress = None"
    and res: "resolves_to P mintAddress tokenData"
    and run: "fetchTokenNameAndDecimals P mintAddress s = (r, s')"
  shows "r = Inr tokenData" and "cache s' = (cache s)(mintAddress \<mapsto> tokenData)"
proof -
  from fetch_exact [OF run] miss res obtain other where
    o: "resolves_to P mintAddress other" "r = Inr other"
       "cache s' = (cache s)(mintAddress \<mapsto> other)"
    by (elim disjE exE conjE) simp_all
  from resolves_unique [OF o(1) res] have "other = tokenData" .
  with o show "r = Inr tokenData" and "cache s' = (cache s)(mintAddress \<mapsto> tokenData)"
    by simp_all
qed

text \<open>The example platform with the "USDC" account and a mint account whose byte 44 is \<open>b\<close>
  resolves every identifier other than \<open>''PDA''\<close> to the trimmed name and symbol with
  precision \<open>b\<close>.\<close>

lemma usdc_resolves:
  assumes "k \<noteq> ''PDA''"
  shows "resolves_to (example_platform (AccountInfo usdc_metadata_account) (AccountInfo (mint_account b)))
           k \<lparr>name = [0x55, 0x53, 0x44, 0x43], symbol = [0x55, 0x24], decimals = unat b\<rparr>"
proof -
  let ?P = "example_platform (AccountInfo usdc_metadata_account) (AccountInfo (mint_account b))"
  have h: "length (replicate 65 (0::byte)) = 65"
    "length [0x55, 0x53, 0x44, 0x43, 0x20, 0 :: byte] < 2 ^ 32"
    "length [0x55, 0x24, 0 :: byte] < 2 ^ 32"
    by simp_all
  have n: "length [0x55, 0x53, 0x44, 0x43, 0x20, 0 :: byte] = 6" "length [0x55, 0x24, 0 :: byte] = 3"
    by simp_all
  have rn: "replace_nul (ascii [0x55, 0x53, 0x44, 0x43, 0x20, 0]) = [0x55, 0x53, 0x44, 0x43, 0x20]"
    "replace_nul (ascii [0x55, 0x24, 0]) = [0x55, 0x24]"
    by (simp_all add: replace_nul_def ascii_def)
  have dec: "decodeMetaplexMetadata ascii usdc_metadata_account
               = Inr \<lparr>name = [0x55, 0x53, 0x44, 0x43, 0x20], symbol = [0x55, 0x24]\<rparr>"
    unfolding usdc_metadata_account_def
    by (rule decode_layout [OF h, of ascii "[]", unfolded n rn])
  have tr: "trim [0x55, 0x53, 0x44, 0x43, 0x20] = [0x55, 0x53, 0x44, 0x43]"
    "trim [0x55, 0x24] = [0x55, 0x24]"
    by (simp_all add: trim_def is_ws_def)
  have rd: "readUInt8 (mint_account b) 44 = Inr (unat b)"
    by (simp add: readUInt8_def mint_account_def nth_append)
  have "newPublicKey ?P k = Some k
        \<and> findProgramAddress ?P (metadata_seeds ?P k) (METAPLEX_METADATA_PROGRAM ?P)
             = Some ''PDA''
        \<and> getAccountInfo ?P ''PDA'' = AccountInfo usdc_metadata_account
        \<and> decodeMetaplexMetadata (toString_utf8 ?P) usdc_metadata_account
             = Inr \<lparr>name = [0x55, 0x53, 0x44, 0x43, 0x20], symbol = [0x55, 0x24]\<rparr>
        \<and> (getAccountInfo ?P k = AccountNull \<and> unat b = 0
             \<or> (\<exists>mintData. getAccountInfo ?P k = AccountInfo mintData
                    \<and> readUInt8 mintData 44 = Inr (unat b)))
        \<and> \<lparr>name = [0x55, 0x53, 0x44, 0x43], symbol = [0x55, 0x24], decimals = unat b\<rparr>
            = \<lparr>name = trim (name \<lparr>name = [0x55, 0x53, 0x44, 0x43, 0x20], symbol = [0x55, 0x24]\<rparr>),
               symbol = trim (symbol \<lparr>name = [0x55, 0x53, 0x44, 0x43, 0x20], symbol = [0x55, 0x24]\<rparr>),
               decimals = unat b\<rparr>"
    using assms by (simp add: example_platform_simps dec tr rd)
  then show ?thesis
    by (intro exI)
qed

text \<open>The theorem on that platform, from start-up: nothing is cached, the chain resolves the
  identifier, so the record returned is the resolved one, with precision 6.\<close>

theorem resolver_never_throws_witness:
  "fst (fetchTokenNameAndDecimals
          (example_platform (AccountInfo usdc_metadata_account) (AccountInfo (mint_account 6)))
          ''Mint'' initial_state)
     = Inr \<lparr>name = [0x55, 0x53, 0x44, 0x43], symbol = [0x55, 0x24], decimals = 6\<rparr>"
proof -
  let ?P = "example_platform (AccountInfo usdc_metadata_account) (AccountInfo (mint_account 6))"
  let ?v = "\<lparr>name = [0x55, 0x53, 0x44, 0x43], symbol = [0x55, 0x24], decimals = 6\<rparr> :: TokenMetadata"
  have miss: "cache (initial_state :: string state) ''Mint'' = None"
    by (simp add: initial_state_def)
  have res: "resolves_to ?P ''Mint'' ?v"
    using usdc_resolves [of "''Mint''" 6] by simp
  from resolver_never_throws [of ?P "''Mint''" initial_state]
  obtain tokenData s' where
    run: "fetchTokenNameAndDecimals ?P ''Mint'' initial_state = (Inr tokenData, s')"
    and alt: "cache (initial_state :: string state) ''Mint'' = Some tokenData
         \<or> (cache (initial_state :: string state) ''Mint'' = None \<and> resolves_to ?P ''Mint'' tokenData)
         \<or> (cache (initial_state :: string state) ''Mint'' = None \<and> tokenData = sentinel
             \<and> (\<forall>other. \<not> resolves_to ?P ''Mint'' other))"
    by (elim exE conjE)
  from alt have "tokenData = ?v"
  proof (elim disjE conjE)
    assume "cache (initial_state :: string state) ''Mint'' = Some tokenData"
    with miss show ?thesis by simp
  next
    assume "resolves_to ?P ''Mint'' tokenData"
    then show ?thesis
      using res by (rule resolves_unique)
  next
    assume "\<forall>other. \<not> resolves_to ?P ''Mint'' other"
    then have "\<not> resolves_to ?P ''Mint'' ?v"
      by (rule spec)
    with res show ?thesis
      by (rule notE [rotated])
  qed
  with run show ?thesis
    by simp
qed


lemma fetch_hit:
  "cache t mintAddress = Some v \<Longrightarrow> fetchTokenNameAndDecimals P mintAddress t = (Inr v, t)"
  by (simp add: fetchTokenNameAndDecimals_def)

lemma fetch_cache_after:
  assumes run: "fetchTokenNameAndDecimals P mintAddress s = (r, s1)"
    and held: "cache s1 mintAddress \<noteq> None"
  shows "\<exists>v. r = Inr v \<and> cache s1 mintAddress = Some v"
  using fetch_outcomes [OF run] held
  by (elim disjE exE conjE) simp_all

text \<open>
  Claim C8. When the cache holds the identifier, \<open>fetchTokenNameAndDecimals\<close> returns the
  cached record and leaves the state as it was: no key is built, no address derived, no
  account fetched, and a second call does the same. More generally, whenever the cache
  holds the identifier after a call, repeating the call returns the same record and
  changes nothing.
\<close>

theorem cached_short_circuit:
  "(cache s mintAddress = Some tokenData \<longrightarrow>
      fetchTokenNameAndDecimals P mintAddress s = (Inr tokenData, s)
      \<and> fetchTokenNameAndDecimals P mintAddress
            (snd (fetchTokenNameAndDecimals P mintAddress s)) = (Inr tokenData, s))
   \<and> (\<forall>r s1. fetchTokenNameAndDecimals P mintAddress s = (r, s1) \<and> cache s1 mintAddress \<noteq> None
         \<longrightarrow> fetchTokenNameAndDecimals P mintAddress s1 = (r, s1))"
proof (intro conjI impI allI)
  assume c: "cache s mintAddress = Some tokenData"
  from fetch_hit [OF c]
  show first: "fetchTokenNameAndDecimals P mintAddress s = (Inr tokenData, s)" .
  show "fetchTokenNameAndDecimals P mintAddress
          (snd (fetchTokenNameAndDecimals P mintAddress s)) = (Inr tokenData, s)"
    by (simp add: first)
next
  fix r s1
  assume a: "fetchTokenNameAndDecimals P mintAddress s = (r, s1) \<and> cache s1 mintAddress \<noteq> None"
  then obtain v where v: "r = Inr v" "cache s1 mintAddress = Some v"
    using fetch_cache_after [of P mintAddress s r s1] by auto
  from fetch_hit [OF v(2)] v(1)
  show "fetchTokenNameAndDecimals P mintAddress s1 = (r, s1)"
    by simp
qed

text \<open>The theorem with a record in the cache and a connection that rejects every request.\<close>

theorem cached_short_circuit_witness:
  "fetchTokenNameAndDecimals (example_platform AccountThrows AccountThrows) ''Mint''
     (initial_state\<lparr>cache := [''Mint'' \<mapsto> \<lparr>name = js ''USD Coin'', symbol = js ''USDC'', decimals = 6\<rparr>]\<rparr>)
   = (Inr \<lparr>name = js ''USD Coin'', symbol = js ''USDC'', decimals = 6\<rparr>,
      initial_state\<lparr>cache := [''Mint'' \<mapsto> \<lparr>name = js ''USD Coin'', symbol = js ''USDC'', decimals = 6\<rparr>]\<rparr>)"
proof -
  let ?v = "\<lparr>name = js ''USD Coin'', symbol = js ''USDC'', decimals = 6\<rparr>"
  let ?s = "initial_state\<lparr>cache := [''Mint'' \<mapsto> ?v]\<rparr> :: string state"
  have c: "cache ?s ''Mint'' = Some ?v"
    by simp
  show ?thesis
    by (rule cached_short_circuit [of ?s "''Mint''" ?v "example_platform AccountThrows AccountThrows",
          THEN conjunct1, THEN mp, OF c, THEN conjunct1])
qed


text \<open>
  Claim C10, as the code has it. A call of \<open>fetchTokenNameAndDecimals\<close> ends in exactly one of
  three ways: a cache hit that changes nothing; on a miss, the record the chain resolves the
  identifier to (trimmed name and symbol of the decoded account, precision from byte 44 of
  the mint account or 0 without one), returned and stored under the identifier; or, on a
  miss with nothing to resolve, the fallback, with the cache as it was. So the cache is
  written only when the resolution succeeded, and what is written is the decoded record
  (which may have the value of the fallback). In particular the fallback is returned and the
  cache is unchanged when the key is invalid, when no address is derived, when the derived
  account is absent, when a fetch is rejected, when the decoder fails, and when the mint
  account is too short to hold byte 44.
\<close>

theorem cache_written_only_on_success:
  assumes "fetchTokenNameAndDecimals P mintAddress s = (r, s')"
  shows "((\<exists>tokenData. cache s mintAddress = Some tokenData \<and> r = Inr tokenData \<and> s' = s)
          \<or> (cache s mintAddress = None
              \<and> (\<exists>tokenData. resolves_to P mintAddress tokenData \<and> r = Inr tokenData
                     \<and> cache s' = (cache s)(mintAddress \<mapsto> tokenData)))
          \<or> (cache s mintAddress = None
              \<and> (\<forall>tokenData. \<not> resolves_to P mintAddress tokenData)
              \<and> r = Inr sentinel \<and> cache s' = cache s))
         \<and> (cache s mintAddress = None
              \<and> (newPublicKey P mintAddress = None
                  \<or> (newPublicKey P mintAddress = Some mintPublicKey
                      \<and> (findProgramAddress P (metadata_seeds P mintPublicKey)
                            (METAPLEX_METADATA_PROGRAM P) = None
                          \<or> (findProgramAddress P (metadata_seeds P mintPublicKey)
                                (METAPLEX_METADATA_PROGRAM P) = Some metadataPDA
                              \<and> (getAccountInfo P metadataPDA = AccountNull
                                  \<or> getAccountInfo P metadataPDA = AccountThrows
                                  \<or> (\<exists>data e. getAccountInfo P metadataPDA = AccountInfo data
                                        \<and> decodeMetaplexMetadata (toString_utf8 P) data = Inl e)
                                  \<or> getAccountInfo P mintPublicKey = AccountThrows
                                  \<or> (\<exists>mintData. getAccountInfo P mintPublicKey = AccountInfo mintData
                                        \<and> length mintData \<le> 44))))))
              \<longrightarrow> r = Inr sentinel \<and> cache s' = cache s)"
proof (intro conjI impI)
  show "(\<exists>tokenData. cache s mintAddress = Some tokenData \<and> r = Inr tokenData \<and> s' = s)
          \<or> (cache s mintAddress = None
              \<and> (\<exists>tokenData. resolves_to P mintAddress tokenData \<and> r = Inr tokenData
                     \<and> cache s' = (cache s)(mintAddress \<mapsto> tokenData)))
          \<or> (cache s mintAddress = None
              \<and> (\<forall>tokenData. \<not> resolves_to P mintAddress tokenData)
              \<and> r = Inr sentinel \<and> cache s' = cache s)"
    by (rule fetch_exact [OF assms])
next
  assume fails: "cache s mintAddress = None
              \<and> (newPublicKey P mintAddress = None
                  \<or> (newPublicKey P mintAddress = Some mintPublicKey
                      \<and> (findProgramAddress P (metadata_seeds P mintPublicKey)
                            (METAPLEX_METADATA_PROGRAM P) = None
                          \<or> (findProgramAddress P (metadata_seeds P mintPublicKey)
                                (METAPLEX_METADATA_PROGRAM P) = Some metadataPDA
                              \<and> (getAccountInfo P metadataPDA = AccountNull
                                  \<or> getAccountInfo P metadataPDA = AccountThrows
                                  \<or> (\<exists>data e. getAccountInfo P metadataPDA = AccountInfo data
                                        \<and> decodeMetaplexMetadata (toString_utf8 P) data = Inl e)
                                  \<or> getAccountInfo P mintPublicKey = AccountThrows
                                  \<or> (\<exists>mintData. getAccountInfo P mintPublicKey = AccountInfo mintData
                                        \<and> length mintData \<le> 44))))))"
  then have miss: "cache s mintAddress = None"
    by (rule conjunct1)
  have none: "\<not> resolves_to P mintAddress tokenData" for tokenData
    using fails by (auto simp: readUInt8_def)
  from fetch_exact [OF assms] miss none
  show "r = Inr sentinel" and "cache s' = cache s"
    by (elim disjE exE conjE; simp)+
qed

text \<open>The theorem from start-up on two platforms: one whose account at the derived address
  is empty, so that the decoder fails, and one whose metadata account decodes but whose
  mint account has three bytes. Both return the fallback and leave the cache empty.\<close>

theorem cache_written_only_on_success_witness:
  "fst (fetchTokenNameAndDecimals (example_platform (AccountInfo []) AccountNull) ''Mint''
          initial_state) = Inr sentinel
   \<and> cache (snd (fetchTokenNameAndDecimals (example_platform (AccountInfo []) AccountNull)
                   ''Mint'' initial_state)) = Map.empty
   \<and> fst (fetchTokenNameAndDecimals
            (example_platform (AccountInfo usdc_metadata_account) (AccountInfo [1, 2, 3]))
            ''Mint'' initial_state) = Inr sentinel
   \<and> cache (snd (fetchTokenNameAndDecimals
                   (example_platform (AccountInfo usdc_metadata_account) (AccountInfo [1, 2, 3]))
                   ''Mint'' initial_state)) = Map.empty"
proof -
  let ?P = "example_platform (AccountInfo []) AccountNull"
  let ?Q = "example_platform (AccountInfo usdc_metadata_account) (AccountInfo [1, 2, 3])"
  let ?runP = "fetchTokenNameAndDecimals ?P ''Mint'' initial_state"
  let ?runQ = "fetchTokenNameAndDecimals ?Q ''Mint'' initial_state"
  have runP: "?runP = (fst ?runP, snd ?runP)" and runQ: "?runQ = (fst ?runQ, snd ?runQ)"
    by simp_all
  have dec: "decodeMetaplexMetadata (toString_utf8 ?P) [] = Inl RangeError"
    by (simp add: decodeMetaplexMetadata_def readUInt32LE_def)
  have failsP: "cache (initial_state :: string state) ''Mint'' = None
       \<and> (newPublicKey ?P ''Mint'' = None
           \<or> (newPublicKey ?P ''Mint'' = Some ''Mint''
               \<and> (findProgramAddress ?P (metadata_seeds ?P ''Mint'') (METAPLEX_METADATA_PROGRAM ?P)
                     = None
                   \<or> (findProgramAddress ?P (metadata_seeds ?P ''Mint'')
                         (METAPLEX_METADATA_PROGRAM ?P) = Some ''PDA''
                       \<and> (getAccountInfo ?P ''PDA'' = AccountNull
                           \<or> getAccountInfo ?P ''PDA'' = AccountThrows
                           \<or> (\<exists>data e. getAccountInfo ?P ''PDA'' = AccountInfo data
                                 \<and> decodeMetaplexMetadata (toString_utf8 ?P) data = Inl e)
                           \<or> getAccountInfo ?P ''Mint'' = AccountThrows
                           \<or> (\<exists>mintData. getAccountInfo ?P ''Mint'' = AccountInfo mintData
                                 \<and> length mintData \<le> 44))))))"
    using dec by (simp add: example_platform_simps initial_state_def)
  have failsQ: "cache (initial_state :: string state) ''Mint'' = None
       \<and> (newPublicKey ?Q ''Mint'' = None
           \<or> (newPublicKey ?Q ''Mint'' = Some ''Mint''
               \<and> (findProgramAddress ?Q (metadata_seeds ?Q ''Mint'') (METAPLEX_METADATA_PROGRAM ?Q)
                     = None
                   \<or> (findProgramAddress ?Q (metadata_seeds ?Q ''Mint'')
                         (METAPLEX_METADATA_PROGRAM ?Q) = Some ''PDA''
                       \<and> (getAccountInfo ?Q ''PDA'' = AccountNull
                           \<or> getAccountInfo ?Q ''PDA'' = AccountThrows
                           \<or> (\<exists>data e. getAccountInfo ?Q ''PDA'' = AccountInfo data
                                 \<and> decodeMetaplexMetadata (toString_utf8 ?Q) data = Inl e)
                           \<or> getAccountInfo ?Q ''Mint'' = AccountThrows
                           \<or> (\<exists>mintData. getAccountInfo ?Q ''Mint'' = AccountInfo mintData
                                 \<and> length mintData \<le> 44))))))"
    by (simp add: example_platform_simps initial_state_def)
  note instP = cache_written_only_on_success [OF runP, of "''Mint''" "''PDA''",
                 THEN conjunct2, THEN mp, OF failsP]
  note instQ = cache_written_only_on_success [OF runQ, of "''Mint''" "''PDA''",
                 THEN conjunct2, THEN mp, OF failsQ]
  from instP instQ show ?thesis
    by (simp add: initial_state_def)
qed

text \<open>
  Claim C10 as stated fails in its last words: a stored value can be the sentinel value.
  The account at the derived address reads "Unknown" and "UNKNOWN" and there is no mint
  account, so the resolution succeeds with precision 0: the record that is returned and
  stored under the identifier is equal to the fallback.
\<close>

theorem stored_sentinel_counterexample:
  "fst (fetchTokenNameAndDecimals
          (example_platform (AccountInfo unknown_metadata_account) AccountNull)
          ''Mint'' initial_state) = Inr sentinel
   \<and> cache (snd (fetchTokenNameAndDecimals
                   (example_platform (AccountInfo unknown_metadata_account) AccountNull)
                   ''Mint'' initial_state)) ''Mint'' = Some sentinel
   \<and> decodeMetaplexMetadata ascii unknown_metadata_account
       = Inr \<lparr>name = js ''Unknown'', symbol = js ''UNKNOWN''\<rparr>"
proof -
  let ?P = "example_platform (AccountInfo unknown_metadata_account) AccountNull"
  let ?run = "fetchTokenNameAndDecimals ?P ''Mint'' initial_state"
  let ?nm = "[0x55, 0x6E, 0x6B, 0x6E, 0x6F, 0x77, 0x6E] :: buffer"
  let ?sy = "[0x55, 0x4E, 0x4B, 0x4E, 0x4F, 0x57, 0x4E] :: buffer"
  have h: "length (replicate 65 (0::byte)) = 65" "length ?nm < 2 ^ 32" "length ?sy < 2 ^ 32"
    by simp_all
  have n: "length ?nm = 7" "length ?sy = 7"
    by simp_all
  have rn: "replace_nul (ascii ?nm) = js ''Unknown''" "replace_nul (ascii ?sy) = js ''UNKNOWN''"
    by (simp_all add: replace_nul_def ascii_def js_def)
  have dec: "decodeMetaplexMetadata ascii unknown_metadata_account
               = Inr \<lparr>name = js ''Unknown'', symbol = js ''UNKNOWN''\<rparr>"
    unfolding unknown_metadata_account_def
    by (rule decode_layout [OF h, of ascii "[]", unfolded n rn])
  have tr: "trim (js ''Unknown'') = js ''Unknown''" "trim (js ''UNKNOWN'') = js ''UNKNOWN''"
    by (simp_all add: trim_def is_ws_def js_def)
  have "newPublicKey ?P ''Mint'' = Some ''Mint''
        \<and> findProgramAddress ?P (metadata_seeds ?P ''Mint'') (METAPLEX_METADATA_PROGRAM ?P)
             = Some ''PDA''
        \<and> getAccountInfo ?P ''PDA'' = AccountInfo unknown_metadata_account
        \<and> decodeMetaplexMetadata (toString_utf8 ?P) unknown_metadata_account
             = Inr \<lparr>name = js ''Unknown'', symbol = js ''UNKNOWN''\<rparr>
        \<and> (getAccountInfo ?P ''Mint'' = AccountNull \<and> (0::nat) = 0
             \<or> (\<exists>mintData. getAccountInfo ?P ''Mint'' = AccountInfo mintData
                    \<and> readUInt8 mintData 44 = Inr 0))
        \<and> sentinel
            = \<lparr>name = trim (name \<lparr>name = js ''Unknown'', symbol = js ''UNKNOWN''\<rparr>),
               symbol = trim (symbol \<lparr>name = js ''Unknown'', symbol = js ''UNKNOWN''\<rparr>),
               decimals = 0\<rparr>"
    by (simp add: example_platform_simps dec tr sentinel_def)
  then have res: "resolves_to ?P ''Mint'' sentinel"
    by (intro exI)
  have miss: "cache (initial_state :: string state) ''Mint'' = None"
    by (simp add: initial_state_def)
  have run: "?run = (fst ?run, snd ?run)"
    by simp
  from fetch_resolves [OF miss res run] dec show ?thesis
    by simp
qed


section \<open>Transaction processor\<close>

lemma emitted_append: "emitted (xs @ ys) = emitted xs @ emitted ys"
  by (induction xs rule: emitted.induct) simp_all

lemma emitted_logSolChange:
  "emitted (logSolChange c) =
     (if c = Num 0 then [] else [(Native, if num_pos c then Bought else Sold, num_abs c)])"
  by (simp add: logSolChange_def)

lemma resolve_try_console: "resolve_try P k s = (r, s') \<Longrightarrow> console s' = console s"
  by (auto simp: resolve_try_def Let_def fetchMintDecimals_def
           split: option.splits account_response.splits sum.splits prod.splits)

text \<open>A lookup writes at most an error line, and never throws.\<close>

lemma fetch_console:
  assumes "fetchTokenNameAndDecimals P k s = (r, s1)"
  shows "\<exists>tokenData new. r = Inr tokenData \<and> console s1 = console s @ new \<and> emitted new = []"
proof (cases "cache s k")
  case (Some v)
  with assms have "r = Inr v" "console s1 = console s @ []"
    by (auto simp: fetchTokenNameAndDecimals_def)
  then show ?thesis by (metis emitted.simps(1))
next
  case None
  obtain q t where rt: "resolve_try P k s = (q, t)"
    by (cases "resolve_try P k s")
  from resolve_try_console [OF rt] have c: "console t = console s" .
  show ?thesis
  proof (cases q)
    case (Inl e)
    with assms None rt c have "r = Inr sentinel" "console s1 = console s @ [ErrMetadata k e]"
      by (auto simp: fetchTokenNameAndDecimals_def)
    then show ?thesis by simp
  next
    case (Inr o)
    with assms None rt c have "\<exists>v. r = Inr v" "console s1 = console s @ []"
      by (auto simp: fetchTokenNameAndDecimals_def split: option.splits)
    then show ?thesis by (metis emitted.simps(1))
  qed
qed

text \<open>The token lines come out in the order of the entries; a throw of \<open>toFixed\<close> cuts the
  sequence short.\<close>

lemma logTokenChanges_emitted:
  assumes "logTokenChanges P tc s = (r, s')"
  shows "\<exists>new. console s' = console s @ new \<and> prefix (emitted new) (map reported tc)
              \<and> (r = Inr () \<longrightarrow> emitted new = map reported tc)"
  using assms
proof (induction tc arbitrary: s)
  case Nil
  then show ?case by simp
next
  case (Cons entry rest)
  obtain k c where entry: "entry = (k, c)"
    by (cases entry)
  obtain q s1 where f: "fetchTokenNameAndDecimals P k s = (q, s1)"
    by (cases "fetchTokenNameAndDecimals P k s")
  from fetch_console [OF f] obtain tokenData e1
    where q: "q = Inr tokenData" and c1: "console s1 = console s @ e1" and em1: "emitted e1 = []"
    by blast
  show ?case
  proof (cases "100 < decimals tokenData")
    case True
    with Cons.prems entry f q have "s' = s1"
      by simp
    with c1 em1 True Cons.prems entry f q show ?thesis
      by (intro exI [of _ e1]) auto
  next
    case False
    let ?line = "LogToken (name tokenData) k (if 0 < c then Bought else Sold) \<bar>c\<bar>
                   (decimals tokenData) (symbol tokenData)"
    let ?s2 = "s1\<lparr>console := console s1 @ [?line]\<rparr>"
    from Cons.prems entry f q False have run: "logTokenChanges P rest ?s2 = (r, s')"
      by simp
    from Cons.IH [OF run] obtain new2 where
      c2: "console s' = console ?s2 @ new2"
      and p2: "prefix (emitted new2) (map reported rest)"
      and t2: "r = Inr () \<longrightarrow> emitted new2 = map reported rest"
      by blast
    have "console s' = console s @ (e1 @ [?line] @ new2)"
      using c1 c2 by simp
    moreover have "emitted (e1 @ [?line] @ new2) = reported (k, c) # emitted new2"
      by (simp add: emitted_append em1)
    ultimately show ?thesis
      using p2 t2 entry by (intro exI [of _ "e1 @ [?line] @ new2"]) simp
  qed
qed

lemma trades_emitted:
  assumes m: "meta tx = Some m"
    and run: "processTransactionForTrades P tx targetWallet s = (r, s')"
  shows "\<exists>new toks. console s' = console s @ new
           \<and> emitted new = emitted (logSolChange (solBalanceChange m)) @ toks
           \<and> prefix toks (map reported (tokenChanges targetWallet m))
           \<and> (r = Inr () \<longrightarrow> toks = map reported (tokenChanges targetWallet m))"
proof -
  let ?s1 = "s\<lparr>console := console s @ [LogProcessing] @ logSolChange (solBalanceChange m)\<rparr>"
  obtain q s2 where l: "logTokenChanges P (tokenChanges targetWallet m) ?s1 = (q, s2)"
    by (cases "logTokenChanges P (tokenChanges targetWallet m) ?s1")
  from logTokenChanges_emitted [OF l] obtain new2 where
    c2: "console s2 = console ?s1 @ new2"
    and p2: "prefix (emitted new2) (map reported (tokenChanges targetWallet m))"
    and t2: "q = Inr () \<longrightarrow> emitted new2 = map reported (tokenChanges targetWallet m)"
    by blast
  show ?thesis
  proof (cases q)
    case (Inl e)
    with run m l have "r = Inl e" "s' = s2"
      by (simp_all add: processTransactionForTrades_def Let_def)
    then have "console s' = console s @ ([LogProcessing] @ logSolChange (solBalanceChange m) @ new2)"
      using c2 by simp
    moreover have "emitted ([LogProcessing] @ logSolChange (solBalanceChange m) @ new2)
                     = emitted (logSolChange (solBalanceChange m)) @ emitted new2"
      by (simp add: emitted_append)
    ultimately show ?thesis
      using p2 \<open>r = Inl e\<close>
      by (intro exI [of _ "[LogProcessing] @ logSolChange (solBalanceChange m) @ new2"]
                exI [of _ "emitted new2"]) simp
  next
    case (Inr u)
    with run m l have "r = Inr ()" "s' = s2\<lparr>console := console s2 @ [LogNewline]\<rparr>"
      by (simp_all add: processTransactionForTrades_def Let_def)
    then have "console s' = console s @ ([LogProcessing] @ logSolChange (solBalanceChange m)
                                          @ new2 @ [LogNewline])"
      using c2 by simp
    moreover have "emitted ([LogProcessing] @ logSolChange (solBalanceChange m) @ new2 @ [LogNewline])
                     = emitted (logSolChange (solBalanceChange m)) @ emitted new2"
      by (simp add: emitted_append)
    ultimately show ?thesis
      using p2 t2 Inr
      by (intro exI [of _ "[LogProcessing] @ logSolChange (solBalanceChange m) @ new2 @ [LogNewline]"]
                exI [of _ "emitted new2"]) simp
  qed
qed

subsection \<open>The map of token changes\<close>

lemma map_set_keys:
  "map fst (map_set m k v) = (if k \<in> set (map fst m) then map fst m else map fst m @ [k])"
  by (induction m k v rule: map_set.induct) auto

lemma map_of_map_set: "map_of (map_set m k v) = (map_of m)(k \<mapsto> v)"
  by (induction m k v rule: map_set.induct) (auto simp: fun_eq_iff)

lemma unseen_set_cong:
  assumes "set a = set b"
  shows "unseen a xs = unseen b xs"
  using assms
proof (induction xs arbitrary: a b)
  case Nil
  show ?case by simp
next
  case (Cons x xs)
  have mem: "x \<in> set a \<longleftrightarrow> x \<in> set b"
    using Cons.prems by simp
  have "set (x # a) = set (x # b)"
    using Cons.prems by simp
  then have step: "unseen (x # a) xs = unseen (x # b) xs"
    by (rule Cons.IH)
  have same: "unseen a xs = unseen b xs"
    using Cons.prems by (rule Cons.IH)
  show ?case
    unfolding unseen.simps mem step same ..
qed

lemma set_unseen: "set (unseen seen xs) = set xs - set seen"
  by (induction xs arbitrary: seen) auto

lemma aggregate_foldl:
  "aggregate w pre post acc =
     foldl (\<lambda>a e. map_set a (mint e) (balanceChange pre e)) acc
       (filter (\<lambda>e. owner e = Some w \<and> balanceChange pre e \<noteq> 0) post)"
  by (induction post arbitrary: acc) auto

lemma foldl_map_set_keys:
  "map fst (foldl (\<lambda>a e. map_set a (key e) (val e)) acc es)
     = map fst acc @ unseen (map fst acc) (map key es)"
proof (induction es arbitrary: acc)
  case Nil
  then show ?case by simp
next
  case (Cons e es)
  show ?case
  proof (cases "key e \<in> set (map fst acc)")
    case True
    then show ?thesis
      using Cons.IH [of "map_set acc (key e) (val e)"] by (simp add: map_set_keys)
  next
    case False
    have "unseen (map fst acc @ [key e]) (map key es) = unseen (key e # map fst acc) (map key es)"
      by (rule unseen_set_cong) auto
    with False show ?thesis
      using Cons.IH [of "map_set acc (key e) (val e)"] by (simp add: map_set_keys)
  qed
qed

lemma foldl_map_set_value:
  "map_of (foldl (\<lambda>a e. map_set a (key e) (val e)) acc es) k
     = (if filter (\<lambda>e. key e = k) es = [] then map_of acc k
        else Some (val (last (filter (\<lambda>e. key e = k) es))))"
proof (induction es arbitrary: acc)
  case Nil
  then show ?case by simp
next
  case (Cons e es)
  show ?case
    using Cons.IH [of "map_set acc (key e) (val e)"]
    by (auto simp: map_of_map_set)
qed

lemma distinct_unseen: "distinct (unseen seen xs)"
  by (induction xs arbitrary: seen) (auto simp: set_unseen)

lemma entries_from_keys:
  "distinct (map fst xs) \<Longrightarrow> map (\<lambda>k. (k, the (map_of xs k))) (map fst xs) = xs"
proof (induction xs)
  case Nil
  then show ?case by simp
next
  case (Cons x xs)
  obtain k v where x: "x = (k, v)" by (cases x)
  from Cons.prems x have nk: "k \<notin> fst ` set xs" and d: "distinct (map fst xs)"
    by auto
  have "map (\<lambda>j. (j, the (map_of (x # xs) j))) (map fst xs)
          = map (\<lambda>j. (j, the (map_of xs j))) (map fst xs)"
    using nk x by (intro map_cong) auto
  with Cons.IH [OF d] x show ?case
    by simp
qed

text \<open>The entries of \<open>tokenChanges\<close>: the mints of the recorded post-state entries in the
  order of their first occurrence, each with the change of the last recorded entry of that
  mint.\<close>

lemma tokenChanges_entries:
  "tokenChanges targetWallet m =
     map (\<lambda>k. (k, balanceChange (pre_entries m)
                      (last (filter (\<lambda>e. mint e = k) (recorded targetWallet m)))))
       (first_occurrences (map mint (recorded targetWallet m)))"
proof -
  let ?es = "recorded targetWallet m"
  let ?val = "balanceChange (pre_entries m)"
  let ?tc = "foldl (\<lambda>a e. map_set a (mint e) (?val e)) [] ?es"
  have tc: "tokenChanges targetWallet m = ?tc"
    by (simp add: tokenChanges_def aggregate_foldl recorded_def pre_entries_def post_entries_def)
  have keys: "map fst ?tc = first_occurrences (map mint ?es)"
    by (simp add: foldl_map_set_keys first_occurrences_def)
  then have dist: "distinct (map fst ?tc)"
    by (simp add: first_occurrences_def distinct_unseen)
  have val: "the (map_of ?tc k) = ?val (last (filter (\<lambda>e. mint e = k) ?es))"
    if "k \<in> set (first_occurrences (map mint ?es))" for k
  proof -
    from that have "k \<in> mint ` set ?es"
      by (simp add: first_occurrences_def set_unseen)
    then have "filter (\<lambda>e. mint e = k) ?es \<noteq> []"
      by (auto simp: filter_empty_conv)
    then show ?thesis
      by (simp add: foldl_map_set_value)
  qed
  have "?tc = map (\<lambda>k. (k, the (map_of ?tc k))) (map fst ?tc)"
    by (rule entries_from_keys [OF dist, symmetric])
  also have "\<dots> = map (\<lambda>k. (k, ?val (last (filter (\<lambda>e. mint e = k) ?es))))
                     (first_occurrences (map mint ?es))"
    unfolding keys using val by (intro map_cong) auto
  finally show ?thesis
    using tc by simp
qed

section \<open>Rounding to a double\<close>

lemma pow2_powi: "pow2 k = 2 powi k"
  by (simp add: pow2_def power_int_def power_divide inverse_eq_divide)

lemma pow2_pos [simp]: "0 < pow2 k"
  by (simp add: pow2_powi)

lemma pow2_nonneg [simp]: "0 \<le> pow2 k"
  using pow2_pos [of k] by (rule less_imp_le)

lemma pow2_neq_0 [simp]: "pow2 k \<noteq> 0"
  by (metis less_irrefl pow2_pos)

lemma pow2_add: "pow2 (a + b) = pow2 a * pow2 b"
  by (simp add: pow2_powi power_int_add)

lemma pow2_diff: "pow2 (a - b) = pow2 a / pow2 b"
  by (simp add: pow2_powi power_int_diff)

lemma pow2_nat: "pow2 (int n) = 2 ^ n"
  by (simp add: pow2_def)

lemma ilog2_le: "0 < n \<Longrightarrow> 2 ^ ilog2 n \<le> n"
proof (induction n rule: ilog2.induct)
  case (1 n)
  show ?case
  proof (cases "n < 2")
    case True
    with "1.prems" show ?thesis by (simp add: ilog2.simps)
  next
    case False
    then have "0 < n div 2" by simp
    with "1.IH" False have "2 ^ ilog2 (n div 2) \<le> n div 2" by simp
    then have "2 * 2 ^ ilog2 (n div 2) \<le> n" by simp
    with False show ?thesis by (simp add: ilog2.simps [of n])
  qed
qed

lemma ilog2_gt: "n < 2 ^ Suc (ilog2 n)"
proof (induction n rule: ilog2.induct)
  case (1 n)
  show ?case
  proof (cases "n < 2")
    case True
    then show ?thesis by (simp add: ilog2.simps)
  next
    case False
    with "1.IH" have "n div 2 < 2 ^ Suc (ilog2 (n div 2))" by simp
    then have "n < 2 * 2 ^ Suc (ilog2 (n div 2))" by simp
    with False show ?thesis by (simp add: ilog2.simps [of n])
  qed
qed

text \<open>The exponent brackets the magnitude.\<close>

lemma exponent_bounds:
  assumes "0 < a"
  shows "pow2 (exponent a) \<le> a" and "a < pow2 (exponent a + 1)"
proof -
  have abs: "\<bar>a\<bar> = a" using assms by simp
  have "pow2 (exponent a) \<le> a \<and> a < pow2 (exponent a + 1)"
  proof (cases "1 \<le> a")
    case True
    define n where "n = nat \<lfloor>a\<rfloor>"
    have fl1: "1 \<le> \<lfloor>a\<rfloor>" using True by simp
    then have n: "0 < n" and nf: "int n = \<lfloor>a\<rfloor>" by (simp_all add: n_def)
    have e: "exponent a = int (ilog2 n)"
      using True by (simp add: exponent_def abs n_def)
    have "(2::nat) ^ ilog2 n \<le> n" by (rule ilog2_le [OF n])
    then have "(2::int) ^ ilog2 n \<le> \<lfloor>a\<rfloor>"
      unfolding nf [symmetric] by (metis of_nat_le_iff of_nat_numeral of_nat_power)
    then have "rat_of_int (2 ^ ilog2 n) \<le> a"
      by (meson le_floor_iff)
    then have lo: "pow2 (exponent a) \<le> a"
      by (simp add: e pow2_nat)
    have "n < 2 ^ Suc (ilog2 n)" by (rule ilog2_gt)
    then have "int n < 2 ^ Suc (ilog2 n)"
      by (metis of_nat_less_iff of_nat_numeral of_nat_power)
    then have "\<lfloor>a\<rfloor> + 1 \<le> 2 ^ Suc (ilog2 n)"
      unfolding nf by simp
    then have "a < rat_of_int (2 ^ Suc (ilog2 n))"
      by (meson floor_less_iff less_le_trans not_le order_refl zless_add1_eq)
    then have hi: "a < pow2 (exponent a + 1)"
      using pow2_nat [of "Suc (ilog2 n)"] by (simp add: e add.commute)
    from lo hi show ?thesis ..
  next
    case False
    define y where "y = 1 / a"
    define n where "n = nat (\<lceil>y\<rceil> - 1)"
    define k where "k = ilog2 n"
    have y1: "1 < y" using False assms by (simp add: y_def)
    then have c2: "2 \<le> \<lceil>y\<rceil>" by linarith
    then have n: "0 < n" and nc: "int n = \<lceil>y\<rceil> - 1" by (simp_all add: n_def)
    have e: "exponent a = - int k - 1"
      using False by (simp add: exponent_def abs n_def y_def k_def)
    have "n < 2 ^ Suc k" unfolding k_def by (rule ilog2_gt)
    then have "int n < 2 ^ Suc k"
      by (metis of_nat_less_iff of_nat_numeral of_nat_power)
    then have "\<lceil>y\<rceil> \<le> 2 ^ Suc k" using nc by simp
    then have "y \<le> rat_of_int (2 ^ Suc k)"
      by (meson ceiling_le_iff)
    then have yle: "y \<le> 2 ^ Suc k" by simp
    have "(2::nat) ^ k \<le> n" unfolding k_def by (rule ilog2_le [OF n])
    then have "(2::int) ^ k \<le> \<lceil>y\<rceil> - 1"
      unfolding nc [symmetric] by (metis of_nat_le_iff of_nat_numeral of_nat_power)
    then have "rat_of_int (2 ^ k) < y"
      by (meson less_ceiling_iff zle_diff1_eq)
    then have ygt: "2 ^ k < y" by simp
    have p1: "pow2 (exponent a) = 1 / 2 ^ Suc k"
      unfolding e pow2_def by (simp add: nat_add_distrib)
    have "exponent a + 1 = - int k"
      by (simp add: e)
    then have p2: "pow2 (exponent a + 1) = 1 / 2 ^ k"
      by (cases "k = 0") (simp_all add: pow2_def)
    have a_y: "a = 1 / y" using assms by (simp add: y_def)
    have "1 / 2 ^ Suc k \<le> 1 / y"
      using yle y1 by (intro divide_left_mono) simp_all
    then have lo: "pow2 (exponent a) \<le> a"
      by (simp only: p1 a_y [symmetric])
    have "1 / y < 1 / 2 ^ k"
      using ygt y1 by (intro divide_strict_left_mono) simp_all
    then have hi: "a < pow2 (exponent a + 1)"
      by (simp only: p2 a_y [symmetric])
    from lo hi show ?thesis ..
  qed
  then show "pow2 (exponent a) \<le> a" and "a < pow2 (exponent a + 1)"
    by simp_all
qed

lemma pow2_mono_less: "pow2 a < pow2 b \<Longrightarrow> a < b"
proof (rule ccontr)
  assume less: "pow2 a < pow2 b" and "\<not> a < b"
  then have "b \<le> a" by simp
  then have "(2::rat) powi b \<le> 2 powi a"
    by (intro power_int_increasing) simp_all
  with less show False
    by (simp add: pow2_powi)
qed

lemma round_half_even_error: "\<bar>of_int (round_half_even x) - x\<bar> \<le> 1 / 2"
proof -
  define d where "d = x - of_int \<lfloor>x\<rfloor>"
  have d: "0 \<le> d" "d < 1"
    unfolding d_def by linarith+
  have down: "\<bar>rat_of_int \<lfloor>x\<rfloor> - x\<bar> = d"
    using d by (simp add: d_def)
  have up: "\<bar>rat_of_int (\<lfloor>x\<rfloor> + 1) - x\<bar> = 1 - d"
    using d by (simp add: d_def)
  consider "d < 1 / 2" | "1 / 2 < d" | "d = 1 / 2"
    by linarith
  then show ?thesis
  proof cases
    case 1
    then have r: "round_half_even x = \<lfloor>x\<rfloor>"
      by (simp add: round_half_even_def Let_def d_def)
    show ?thesis
      unfolding r down using 1 by simp
  next
    case 2
    then have r: "round_half_even x = \<lfloor>x\<rfloor> + 1"
      by (simp add: round_half_even_def Let_def d_def)
    show ?thesis
      unfolding r up using 2 by simp
  next
    case 3
    then have "round_half_even x = (if even \<lfloor>x\<rfloor> then \<lfloor>x\<rfloor> else \<lfloor>x\<rfloor> + 1)"
      by (simp add: round_half_even_def Let_def d_def)
    then consider (lo) "round_half_even x = \<lfloor>x\<rfloor>" | (hi) "round_half_even x = \<lfloor>x\<rfloor> + 1"
      by (cases "even \<lfloor>x\<rfloor>") simp_all
    then show ?thesis
    proof cases
      case lo
      show ?thesis unfolding lo down using 3 by simp
    next
      case hi
      show ?thesis unfolding hi up using 3 by simp
    qed
  qed
qed

lemma round_half_even_of_int: "round_half_even (of_int n) = n"
  by (simp add: round_half_even_def)

lemma round_half_even_ge_floor: "\<lfloor>x\<rfloor> \<le> round_half_even x"
  by (simp add: round_half_even_def Let_def)

text \<open>How \<open>fl\<close> computes on a non-zero argument, with the exponent named.\<close>

lemma fl_nonzero:
  assumes "x \<noteq> 0"
  shows "fl x = sgn x * of_int (round_half_even (\<bar>x\<bar> / pow2 (exponent \<bar>x\<bar> - 52)))
                  * pow2 (exponent \<bar>x\<bar> - 52)"
  using assms by (simp add: fl_def Let_def)

lemma scaled_ge:
  assumes "x \<noteq> 0"
  shows "2 ^ 52 \<le> \<bar>x\<bar> / pow2 (exponent \<bar>x\<bar> - 52)"
proof -
  have pos: "0 < \<bar>x\<bar>" using assms by simp
  have "pow2 (exponent \<bar>x\<bar>) \<le> \<bar>x\<bar>"
    by (rule exponent_bounds(1) [OF pos])
  then have "pow2 (exponent \<bar>x\<bar>) / pow2 (exponent \<bar>x\<bar> - 52) \<le> \<bar>x\<bar> / pow2 (exponent \<bar>x\<bar> - 52)"
    by (intro divide_right_mono) simp_all
  moreover have "pow2 (exponent \<bar>x\<bar>) / pow2 (exponent \<bar>x\<bar> - 52) = pow2 52"
    using pow2_diff [of "exponent \<bar>x\<bar>" "exponent \<bar>x\<bar> - 52"] by simp
  moreover have "pow2 52 = 2 ^ 52"
    using pow2_nat [of 52] by simp
  ultimately show ?thesis by simp
qed

text \<open>Rounding gives zero only for zero.\<close>

lemma fl_eq_0_iff: "fl x = 0 \<longleftrightarrow> x = 0"
proof
  assume "x = 0"
  then show "fl x = 0" by (simp add: fl_def)
next
  assume z: "fl x = 0"
  show "x = 0"
  proof (rule ccontr)
    assume nz: "x \<noteq> 0"
    let ?q = "\<bar>x\<bar> / pow2 (exponent \<bar>x\<bar> - 52)"
    have "(1::rat) \<le> 2 ^ 52" by simp
    also have "\<dots> \<le> ?q" by (rule scaled_ge [OF nz])
    finally have "1 \<le> ?q" .
    then have "1 \<le> \<lfloor>?q\<rfloor>" by (simp only: one_le_floor)
    with round_half_even_ge_floor [of ?q] have "0 < round_half_even ?q" by linarith
    then have "rat_of_int (round_half_even ?q) \<noteq> 0" by simp
    moreover have "sgn x \<noteq> 0" using nz by (simp add: sgn_eq_0_iff)
    moreover have "pow2 (exponent \<bar>x\<bar> - 52) \<noteq> 0"
      by (rule pow2_neq_0)
    ultimately have "fl x \<noteq> 0"
      unfolding fl_nonzero [OF nz] by simp
    with z show False by simp
  qed
qed

text \<open>The relative error of rounding is at most \<open>2^-53\<close>.\<close>

lemma fl_error: "\<bar>fl x - x\<bar> \<le> \<bar>x\<bar> / 2 ^ 53"
proof (cases "x = 0")
  case True
  then show ?thesis by (simp add: fl_def)
next
  case False
  define u where "u = pow2 (exponent \<bar>x\<bar> - 52)"
  define r where "r = rat_of_int (round_half_even (\<bar>x\<bar> / u))"
  have u: "0 < u" by (simp add: u_def)
  have flx: "fl x = sgn x * r * u"
    unfolding r_def u_def by (rule fl_nonzero [OF False])
  have x: "x = sgn x * (\<bar>x\<bar> / u) * u"
    using u by (simp add: mult_sgn_abs)
  have "fl x - x = sgn x * (r - \<bar>x\<bar> / u) * u"
    unfolding flx by (subst (2) x) (simp add: algebra_simps)
  then have "\<bar>fl x - x\<bar> = \<bar>r - \<bar>x\<bar> / u\<bar> * u"
    using False u by (simp add: abs_mult abs_sgn_eq)
  also have "\<dots> \<le> 1 / 2 * u"
    using round_half_even_error [of "\<bar>x\<bar> / u"] u
    unfolding r_def by (intro mult_right_mono) simp_all
  also have "\<dots> \<le> \<bar>x\<bar> / 2 ^ 53"
  proof -
    have "2 ^ 52 * u \<le> \<bar>x\<bar>"
      using scaled_ge [OF False] u unfolding u_def by (simp add: pos_le_divide_eq)
    then show ?thesis by simp
  qed
  finally show ?thesis .
qed

text \<open>Integers below \<open>2^53\<close> in magnitude are doubles.\<close>

lemma fl_of_int:
  assumes "\<bar>n\<bar> < 2 ^ 53"
  shows "fl (of_int n) = of_int n"
proof (cases "n = 0")
  case True
  then show ?thesis by (simp add: fl_def)
next
  case False
  define x where "x = rat_of_int n"
  define e where "e = exponent \<bar>x\<bar>"
  have nz: "x \<noteq> 0" using False by (simp add: x_def)
  have pos: "0 < \<bar>x\<bar>" using nz by simp
  have "pow2 e \<le> \<bar>x\<bar>"
    unfolding e_def by (rule exponent_bounds(1) [OF pos])
  also have "\<bar>x\<bar> < 2 ^ 53"
    using assms unfolding x_def by (metis of_int_abs of_int_less_numeral_power_cancel_iff)
  also have "(2::rat) ^ 53 = pow2 53"
    using pow2_nat [of 53] by simp
  finally have "e < 53" by (rule pow2_mono_less)
  then have k: "0 \<le> 52 - e" by simp
  have scale: "pow2 (52 - e) = of_int (2 ^ nat (52 - e))"
    using k by (simp add: pow2_def)
  have inv: "pow2 (52 - e) * pow2 (e - 52) = 1"
    using pow2_add [of "52 - e" "e - 52"] by (simp add: pow2_def)
  have "\<bar>x\<bar> / pow2 (e - 52) = \<bar>x\<bar> * pow2 (52 - e)"
    using inv pow2_pos [of "e - 52"] by (simp add: field_simps)
  also have "\<dots> = of_int (\<bar>n\<bar> * 2 ^ nat (52 - e))"
    unfolding scale x_def by simp
  finally have q: "\<bar>x\<bar> / pow2 (e - 52) = of_int (\<bar>n\<bar> * 2 ^ nat (52 - e))" .
  have "fl x = sgn x * of_int (\<bar>n\<bar> * 2 ^ nat (52 - e)) * pow2 (e - 52)"
    unfolding fl_nonzero [OF nz] e_def [symmetric] q round_half_even_of_int ..
  also have "\<dots> = sgn x * \<bar>x\<bar> * (pow2 (52 - e) * pow2 (e - 52))"
    unfolding scale x_def by simp
  also have "\<dots> = x"
    unfolding inv by (simp add: mult_sgn_abs)
  finally show ?thesis
    by (simp add: x_def)
qed

subsection \<open>Computing particular doubles\<close>

lemma floor_rat_numeral: "\<lfloor>numeral a / numeral b :: rat\<rfloor> = numeral a div numeral b"
  by (metis floor_divide_of_int_eq of_int_numeral)

lemma ceiling_rat_numeral: "\<lceil>numeral a / numeral b :: rat\<rceil> = - (- numeral a div numeral b)"
  using ceiling_divide_eq_div [of "numeral a" "numeral b", where ?'a = rat] by simp

lemma fl_compute:
  assumes "0 < x" and "exponent x = e" and "round_half_even (x / pow2 (e - 52)) = r"
  shows "fl x = of_int r * pow2 (e - 52)"
  using assms by (simp add: fl_def Let_def)

lemma fl_3_10: "fl (3 / 10) = 5404319552844595 / 18014398509481984"
proof -
  have e: "exponent (3 / 10) = - 2"
    by (simp add: exponent_def Let_def ilog2.simps ceiling_rat_numeral)
  have r: "round_half_even (3 / 10 / pow2 (- 2 - 52)) = 5404319552844595"
    by (simp add: pow2_def round_half_even_def Let_def floor_rat_numeral)
  show ?thesis
    by (simp add: fl_compute [OF _ e r] pow2_def)
qed

lemma fl_1_10: "fl (1 / 10) = 3602879701896397 / 36028797018963968"
proof -
  have e: "exponent (1 / 10) = - 4"
    by (simp add: exponent_def Let_def ilog2.simps ceiling_rat_numeral)
  have r: "round_half_even (1 / 10 / pow2 (- 4 - 52)) = 7205759403792794"
    by (simp add: pow2_def round_half_even_def Let_def floor_rat_numeral)
  show ?thesis
    by (simp add: fl_compute [OF _ e r] pow2_def)
qed

lemma fl_1_5: "fl (1 / 5) = 3602879701896397 / 18014398509481984"
proof -
  have e: "exponent (1 / 5) = - 3"
    by (simp add: exponent_def Let_def ilog2.simps ceiling_rat_numeral)
  have r: "round_half_even (1 / 5 / pow2 (- 3 - 52)) = 7205759403792794"
    by (simp add: pow2_def round_half_even_def Let_def floor_rat_numeral)
  show ?thesis
    by (simp add: fl_compute [OF _ e r] pow2_def)
qed

lemma fl_difference:
  "fl (5404319552844595 / 18014398509481984 - 3602879701896397 / 36028797018963968)
     = 7205759403792793 / 36028797018963968"
proof -
  have d: "(5404319552844595 / 18014398509481984 - 3602879701896397 / 36028797018963968 :: rat)
             = 7205759403792793 / 36028797018963968"
    by simp
  have e: "exponent (7205759403792793 / 36028797018963968) = - 3"
    by (simp add: exponent_def Let_def ilog2.simps ceiling_rat_numeral)
  have r: "round_half_even (7205759403792793 / 36028797018963968 / pow2 (- 3 - 52))
             = 7205759403792793"
    by (simp add: pow2_def round_half_even_def Let_def floor_rat_numeral)
  show ?thesis
    unfolding d by (simp add: fl_compute [OF _ e r] pow2_def)
qed

lemma fl_large_1: "fl (9007199254740991 / 1000000000) = 1208925819614629 / 134217728"
proof -
  have e: "exponent (9007199254740991 / 1000000000) = 23"
    by (simp add: exponent_def Let_def ilog2.simps floor_rat_numeral)
  have r: "round_half_even (9007199254740991 / 1000000000 / pow2 (23 - 52)) = 4835703278458516"
    by (simp add: pow2_def round_half_even_def Let_def floor_rat_numeral)
  show ?thesis
    by (simp add: fl_compute [OF _ e r] pow2_def)
qed

lemma fl_large_2: "fl (900719925474099 / 100000000) = 1208925819614629 / 134217728"
proof -
  have e: "exponent (900719925474099 / 100000000) = 23"
    by (simp add: exponent_def Let_def ilog2.simps floor_rat_numeral)
  have r: "round_half_even (900719925474099 / 100000000 / pow2 (23 - 52)) = 4835703278458516"
    by (simp add: pow2_def round_half_even_def Let_def floor_rat_numeral)
  show ?thesis
    by (simp add: fl_compute [OF _ e r] pow2_def)
qed

lemma fl_minus: "fl (- x) = - fl x"
  by (simp add: fl_def Let_def)

lemma fl_5: "fl 5 = 5"
  using fl_of_int [of 5] by simp

lemma fl_3: "fl 3 = 3"
  using fl_of_int [of 3] by simp

lemma fl_2: "fl 2 = 2"
  using fl_of_int [of 2] by simp

lemma fl_3_2: "fl (3 / 2) = 3 / 2"
proof -
  have e: "exponent (3 / 2) = 0"
    by (simp add: exponent_def Let_def ilog2.simps floor_rat_numeral)
  have r: "round_half_even (3 / 2 / pow2 (0 - 52)) = 6755399441055744"
    by (simp add: pow2_def round_half_even_def Let_def floor_rat_numeral)
  show ?thesis
    by (simp add: fl_compute [OF _ e r] pow2_def)
qed

lemma fl_1_2: "fl (1 / 2) = 1 / 2"
proof -
  have e: "exponent (1 / 2) = - 1"
    by (simp add: exponent_def Let_def ilog2.simps ceiling_rat_numeral)
  have r: "round_half_even (1 / 2 / pow2 (- 1 - 52)) = 4503599627370496"
    by (simp add: pow2_def round_half_even_def Let_def floor_rat_numeral)
  show ?thesis
    by (simp add: fl_compute [OF _ e r] pow2_def)
qed

section \<open>Processor: what is reported\<close>

lemma solBalanceChange_first:
  assumes "preBalances m = a # pres" and "postBalances m = b # posts"
  shows "solBalanceChange m =
           Num (fl (fl (rat_of_nat b / 1000000000) - fl (rat_of_nat a / 1000000000)))"
  using assms by (simp add: solBalanceChange_def first_in_SOL_def Let_def)

text \<open>Scaling first and subtracting afterwards loses at most a few units in the last
  place of the larger balance.\<close>

lemma scaled_difference_error:
  assumes "0 \<le> A" and "0 \<le> B"
  shows "\<bar>fl (fl B - fl A) - (B - A)\<bar> \<le> (A + B) / 2 ^ 51"
proof -
  define eps :: rat where "eps = 1 / 2 ^ 53"
  define tA where "tA = A * eps"
  define tB where "tB = B * eps"
  define D where "D = fl B - fl A"
  have eps: "0 \<le> eps" "eps \<le> 1"
    by (simp_all add: eps_def)
  have err: "\<bar>fl x - x\<bar> \<le> \<bar>x\<bar> * eps" for x
    using fl_error [of x] by (simp add: eps_def)
  have "\<bar>fl A - A\<bar> \<le> tA"
    using err [of A] assms by (simp add: tA_def)
  then have a: "A - tA \<le> fl A" "fl A \<le> A + tA"
    by (simp_all add: abs_le_iff algebra_simps)
  have "\<bar>fl B - B\<bar> \<le> tB"
    using err [of B] assms by (simp add: tB_def)
  then have b: "B - tB \<le> fl B" "fl B \<le> B + tB"
    by (simp_all add: abs_le_iff algebra_simps)
  have t: "0 \<le> tA" "0 \<le> tB" "tA \<le> A" "tB \<le> B"
    using assms eps by (simp_all add: tA_def tB_def mult_left_le)
  have "D \<le> 2 * A + 2 * B"
    unfolding D_def using a(1) b(2) t(3,4) assms(1) by linarith
  moreover have "- D \<le> 2 * A + 2 * B"
    unfolding D_def using a(2) b(1) t(3,4) assms(2) by linarith
  ultimately have "\<bar>D\<bar> \<le> 2 * A + 2 * B"
    by (simp add: abs_le_iff)
  then have "\<bar>D\<bar> * eps \<le> (2 * A + 2 * B) * eps"
    using eps by (intro mult_right_mono)
  also have "(2 * A + 2 * B) * eps = 2 * tA + 2 * tB"
    by (simp add: tA_def tB_def algebra_simps)
  finally have bound: "\<bar>D\<bar> * eps \<le> 2 * tA + 2 * tB" .
  from err [of D] bound have "\<bar>fl D - D\<bar> \<le> 2 * tA + 2 * tB"
    by (rule order_trans)
  then have d: "D - (2 * tA + 2 * tB) \<le> fl D" "fl D \<le> D + (2 * tA + 2 * tB)"
    by (simp_all add: abs_le_iff algebra_simps)
  have "fl D - (B - A) \<le> 4 * tA + 4 * tB"
    using a(1) b(2) d(2) t(1,2) unfolding D_def by linarith
  moreover have "- (fl D - (B - A)) \<le> 4 * tA + 4 * tB"
    using a(2) b(1) d(1) t(1,2) unfolding D_def by linarith
  ultimately have "\<bar>fl D - (B - A)\<bar> \<le> 4 * tA + 4 * tB"
    by (simp add: abs_le_iff)
  also have "\<dots> = (A + B) * (4 * eps)"
    by (simp add: tA_def tB_def algebra_simps)
  also have "4 * eps = 1 / 2 ^ 51"
    by (simp add: eps_def)
  finally show ?thesis
    by (simp add: D_def)
qed

lemma prefix_reported_tokens:
  assumes "prefix toks (map reported tc)"
  shows "filter (\<lambda>d. fst d = Native) toks = []" and "filter (\<lambda>d. fst d \<noteq> Native) toks = toks"
proof -
  have "fst d \<noteq> Native" if "d \<in> set toks" for d
  proof -
    from that assms have "d \<in> set (map reported tc)"
      using set_mono_prefix by blast
    then show ?thesis by auto
  qed
  then show "filter (\<lambda>d. fst d = Native) toks = []"
    and "filter (\<lambda>d. fst d \<noteq> Native) toks = toks"
    by (simp_all add: filter_empty_conv filter_id_conv)
qed

lemma native_logSolChange:
  "filter (\<lambda>d. fst d = Native) (emitted (logSolChange c)) = emitted (logSolChange c)"
  "filter (\<lambda>d. fst d \<noteq> Native) (emitted (logSolChange c)) = []"
  by (simp_all add: logSolChange_def)

text \<open>What a run on a transaction with metadata reports: the native line as
  \<open>logSolChange\<close> gives it, then the token lines of \<open>tokenChanges\<close> in order, all of them
  unless \<open>toFixed\<close> threw.\<close>

lemma trades_report:
  assumes "meta tx = Some m"
    and "processTransactionForTrades P tx targetWallet s = (r, s')"
  shows "\<exists>new. console s' = console s @ new
          \<and> filter (\<lambda>d. fst d = Native) (emitted new) = emitted (logSolChange (solBalanceChange m))
          \<and> prefix (filter (\<lambda>d. fst d \<noteq> Native) (emitted new))
                    (map reported (tokenChanges targetWallet m))
          \<and> (r = Inr () \<longrightarrow>
                filter (\<lambda>d. fst d \<noteq> Native) (emitted new) = map reported (tokenChanges targetWallet m))"
proof -
  from trades_emitted [OF assms] obtain new toks where
    c: "console s' = console s @ new"
    and e: "emitted new = emitted (logSolChange (solBalanceChange m)) @ toks"
    and p: "prefix toks (map reported (tokenChanges targetWallet m))"
    and t: "r = Inr () \<longrightarrow> toks = map reported (tokenChanges targetWallet m)"
    by blast
  have "filter (\<lambda>d. fst d = Native) (emitted new) = emitted (logSolChange (solBalanceChange m))"
    unfolding e by (simp add: native_logSolChange prefix_reported_tokens [OF p])
  moreover have "filter (\<lambda>d. fst d \<noteq> Native) (emitted new) = toks"
    unfolding e by (simp add: native_logSolChange prefix_reported_tokens [OF p])
  ultimately show ?thesis
    using c p t by (intro exI [of _ new]) simp
qed

text \<open>
  Claim C9. When the transaction fetch returns nothing, \<open>processTransaction\<close> writes the
  "Transaction not found" error and stops; when the transaction is found without its
  metadata section, it writes the "Transaction meta not available" error and stops. In
  both cases nothing else is written, so no balance change is reported, and the cache is
  untouched.
\<close>

theorem missing_transaction_reported:
  "(getParsedTransaction P signature = TransactionNull \<longrightarrow>
      processTransaction P signature targetWallet s =
        (Inr (), s\<lparr>calls := calls s @ [GetParsedTransaction signature],
                  console := console s @ [ErrTransactionNotFound signature]\<rparr>))
   \<and> (\<forall>tx. getParsedTransaction P signature = TransactionFound tx \<and> meta tx = None \<longrightarrow>
      processTransaction P signature targetWallet s =
        (Inr (), s\<lparr>calls := calls s @ [GetParsedTransaction signature],
                  console := console s @ [ErrMetaNotAvailable]\<rparr>))"
  by (simp add: processTransaction_def processTransactionForTrades_def Let_def)

text \<open>The theorem from start-up: on the platform that has no transaction, and on one whose
  transaction has no metadata section. Neither run reports a balance change.\<close>

theorem missing_transaction_reported_witness:
  "processTransaction (example_platform AccountNull AccountNull) ''sig'' ''W'' initial_state =
     (Inr (), initial_state\<lparr>calls := [GetParsedTransaction ''sig''],
                            console := [ErrTransactionNotFound ''sig'']\<rparr>)
   \<and> processTransaction
        ((example_platform AccountNull AccountNull)
           \<lparr>getParsedTransaction := \<lambda>signature. TransactionFound \<lparr>meta = None\<rparr>\<rparr>)
        ''sig'' ''W'' initial_state =
     (Inr (), initial_state\<lparr>calls := [GetParsedTransaction ''sig''],
                            console := [ErrMetaNotAvailable]\<rparr>)
   \<and> emitted [ErrTransactionNotFound ''sig''] = []
   \<and> emitted [ErrMetaNotAvailable] = []"
proof -
  let ?P = "example_platform AccountNull AccountNull"
  let ?Q = "?P\<lparr>getParsedTransaction := \<lambda>signature. TransactionFound \<lparr>meta = None\<rparr>\<rparr>"
  have a: "getParsedTransaction ?P ''sig'' = TransactionNull"
    by (simp add: example_platform_simps)
  have b: "getParsedTransaction ?Q ''sig'' = TransactionFound \<lparr>meta = None\<rparr>
            \<and> meta \<lparr>meta = None\<rparr> = None"
    by simp
  note first = missing_transaction_reported [of ?P "''sig''" "''W''" initial_state,
                 THEN conjunct1, THEN mp, OF a]
  note second = missing_transaction_reported [of ?Q "''sig''" "''W''" initial_state,
                  THEN conjunct2, THEN spec, THEN mp, OF b]
  from first second show ?thesis
    by (simp add: initial_state_def)
qed


text \<open>
  Claim C7, as the code has it. On a transaction with metadata the native line is written
  exactly when the computed native change is not zero, and it is the only native report.
  With a first balance on each side, the computed change is the double
  \<open>fl (fl (post / 10^9) - fl (pre / 10^9))\<close>: each balance is scaled and rounded, then the
  difference is rounded. It lies within \<open>(pre + post) / 10^9 / 2^51\<close> of
  \<open>(post - pre) / 10^9\<close>; it is zero exactly when the two scaled balances are the same
  double; so no native line is written when the two balances are equal.
\<close>

theorem native_delta:
  assumes "meta tx = Some m"
    and "processTransactionForTrades P tx targetWallet s = (r, s')"
  shows "\<exists>new. console s' = console s @ new
          \<and> filter (\<lambda>d. fst d = Native) (emitted new) =
               (if solBalanceChange m = Num 0 then []
                else [(Native, if num_pos (solBalanceChange m) then Bought else Sold,
                       num_abs (solBalanceChange m))])
          \<and> (\<forall>a b pres posts. preBalances m = a # pres \<and> postBalances m = b # posts \<longrightarrow>
                solBalanceChange m =
                  Num (fl (fl (rat_of_nat b / 1000000000) - fl (rat_of_nat a / 1000000000)))
                \<and> \<bar>fl (fl (rat_of_nat b / 1000000000) - fl (rat_of_nat a / 1000000000))
                     - (rat_of_nat b - rat_of_nat a) / 1000000000\<bar>
                    \<le> (rat_of_nat a + rat_of_nat b) / 1000000000 / 2 ^ 51
                \<and> (solBalanceChange m = Num 0 \<longleftrightarrow>
                     fl (rat_of_nat b / 1000000000) = fl (rat_of_nat a / 1000000000))
                \<and> (a = b \<longrightarrow> filter (\<lambda>d. fst d = Native) (emitted new) = []))"
proof -
  from trades_report [OF assms] obtain new where
    c: "console s' = console s @ new"
    and n: "filter (\<lambda>d. fst d = Native) (emitted new) = emitted (logSolChange (solBalanceChange m))"
    by blast
  have line: "filter (\<lambda>d. fst d = Native) (emitted new) =
               (if solBalanceChange m = Num 0 then []
                else [(Native, if num_pos (solBalanceChange m) then Bought else Sold,
                       num_abs (solBalanceChange m))])"
    unfolding n by (rule emitted_logSolChange)
  have first: "solBalanceChange m =
                  Num (fl (fl (rat_of_nat b / 1000000000) - fl (rat_of_nat a / 1000000000)))
                \<and> \<bar>fl (fl (rat_of_nat b / 1000000000) - fl (rat_of_nat a / 1000000000))
                     - (rat_of_nat b - rat_of_nat a) / 1000000000\<bar>
                    \<le> (rat_of_nat a + rat_of_nat b) / 1000000000 / 2 ^ 51
                \<and> (solBalanceChange m = Num 0 \<longleftrightarrow>
                     fl (rat_of_nat b / 1000000000) = fl (rat_of_nat a / 1000000000))
                \<and> (a = b \<longrightarrow> filter (\<lambda>d. fst d = Native) (emitted new) = [])"
    if bal: "preBalances m = a # pres \<and> postBalances m = b # posts" for a b pres posts
  proof -
    let ?A = "rat_of_nat a / 1000000000" and ?B = "rat_of_nat b / 1000000000"
    have v: "solBalanceChange m = Num (fl (fl ?B - fl ?A))"
      using bal by (simp add: solBalanceChange_first)
    have "\<bar>fl (fl ?B - fl ?A) - (?B - ?A)\<bar> \<le> (?A + ?B) / 2 ^ 51"
      by (rule scaled_difference_error) simp_all
    moreover have "?B - ?A = (rat_of_nat b - rat_of_nat a) / 1000000000"
      by (simp add: diff_divide_distrib)
    moreover have "?A + ?B = (rat_of_nat a + rat_of_nat b) / 1000000000"
      by (simp add: add_divide_distrib)
    ultimately have e: "\<bar>fl (fl ?B - fl ?A) - (rat_of_nat b - rat_of_nat a) / 1000000000\<bar>
                          \<le> (rat_of_nat a + rat_of_nat b) / 1000000000 / 2 ^ 51"
      by simp
    have z: "solBalanceChange m = Num 0 \<longleftrightarrow> fl ?B = fl ?A"
      unfolding v by (simp add: fl_eq_0_iff)
    have "filter (\<lambda>d. fst d = Native) (emitted new) = []" if "a = b"
      using that z line by simp
    with v e z show ?thesis
      by (intro conjI impI)
  qed
  show ?thesis
  proof (rule exI [of _ new], intro conjI)
    show "console s' = console s @ new"
      by (rule c)
    show "filter (\<lambda>d. fst d = Native) (emitted new) =
               (if solBalanceChange m = Num 0 then []
                else [(Native, if num_pos (solBalanceChange m) then Bought else Sold,
                       num_abs (solBalanceChange m))])"
      by (rule line)
  qed (intro allI impI, erule first)
qed


text \<open>The theorem on a transaction that takes the native balance from 2000000000 to
  1500000000 lamports: one native line, Sold 0.5.\<close>

theorem native_delta_witness:
  "\<exists>new. console (snd (processTransactionForTrades (example_platform AccountNull AccountNull)
                        \<lparr>meta = Some (example_meta 2000000000 1500000000 [] [])\<rparr> ''W''
                        initial_state)) = console (initial_state :: string state) @ new
     \<and> filter (\<lambda>d. fst d = Native) (emitted new) = [(Native, Sold, Num (1 / 2))]"
proof -
  let ?m = "example_meta 2000000000 1500000000 [] []"
  let ?tx = "\<lparr>meta = Some ?m\<rparr>"
  let ?run = "processTransactionForTrades (example_platform AccountNull AccountNull) ?tx ''W''
                (initial_state :: string state)"
  have tx: "meta ?tx = Some ?m"
    by simp
  have run: "?run = (fst ?run, snd ?run)"
    by simp
  from native_delta [OF tx run] obtain new where
    c: "console (snd ?run) = console (initial_state :: string state) @ new"
    and line: "filter (\<lambda>d. fst d = Native) (emitted new) =
               (if solBalanceChange ?m = Num 0 then []
                else [(Native, if num_pos (solBalanceChange ?m) then Bought else Sold,
                       num_abs (solBalanceChange ?m))])"
    and first: "\<forall>a b pres posts. preBalances ?m = a # pres \<and> postBalances ?m = b # posts \<longrightarrow>
                solBalanceChange ?m =
                  Num (fl (fl (rat_of_nat b / 1000000000) - fl (rat_of_nat a / 1000000000)))
                \<and> \<bar>fl (fl (rat_of_nat b / 1000000000) - fl (rat_of_nat a / 1000000000))
                     - (rat_of_nat b - rat_of_nat a) / 1000000000\<bar>
                    \<le> (rat_of_nat a + rat_of_nat b) / 1000000000 / 2 ^ 51
                \<and> (solBalanceChange ?m = Num 0 \<longleftrightarrow>
                     fl (rat_of_nat b / 1000000000) = fl (rat_of_nat a / 1000000000))
                \<and> (a = b \<longrightarrow> filter (\<lambda>d. fst d = Native) (emitted new) = [])"
    by blast
  have bal: "preBalances ?m = 2000000000 # [] \<and> postBalances ?m = 1500000000 # []"
    by (simp add: example_meta_def)
  from first [rule_format, OF bal]
  have "solBalanceChange ?m =
          Num (fl (fl (rat_of_nat 1500000000 / 1000000000) - fl (rat_of_nat 2000000000 / 1000000000)))"
    by (rule conjunct1)
  also have "rat_of_nat 1500000000 / 1000000000 = 3 / 2"
    by simp
  also have "rat_of_nat 2000000000 / 1000000000 = 2"
    by simp
  also have "fl (fl (3 / 2) - fl 2) = fl (- (1 / 2))"
    by (simp add: fl_3_2 fl_2)
  also have "\<dots> = - (1 / 2)"
    by (simp only: fl_minus fl_1_2)
  finally have v: "solBalanceChange ?m = Num (- (1 / 2))" .
  have "filter (\<lambda>d. fst d = Native) (emitted new) = [(Native, Sold, Num (1 / 2))]"
    unfolding line v by simp
  with c show ?thesis
    by (intro exI [of _ new] conjI)
qed

text \<open>
  Claim C7 as stated fails. From 100000000 to 300000000 lamports the computed change is the
  double 0.19999999999999998 (0.3 - 0.1 in doubles), which is neither 200000000 / 10^9 nor
  the double nearest to it. From 9007199254740991 to 9007199254740990 lamports the two
  scaled balances are the same double: the computed change is zero and no native line is
  written, although the balances differ.
\<close>

theorem native_delta_counterexample:
  "solBalanceChange (example_meta 100000000 300000000 [] [])
     = Num (7205759403792793 / 36028797018963968)
   \<and> solBalanceChange (example_meta 100000000 300000000 [] [])
       \<noteq> Num ((300000000 - 100000000) / 1000000000)
   \<and> solBalanceChange (example_meta 100000000 300000000 [] [])
       \<noteq> Num (fl ((300000000 - 100000000) / 1000000000))
   \<and> solBalanceChange (example_meta 9007199254740991 9007199254740990 [] []) = Num 0
   \<and> logSolChange (solBalanceChange (example_meta 9007199254740991 9007199254740990 [] [])) = []"
proof -
  have "solBalanceChange (example_meta 100000000 300000000 [] [])
          = Num (fl (fl (rat_of_nat 300000000 / 1000000000) - fl (rat_of_nat 100000000 / 1000000000)))"
    by (rule solBalanceChange_first) (simp_all add: example_meta_def)
  also have "rat_of_nat 300000000 / 1000000000 = 3 / 10"
    by simp
  also have "rat_of_nat 100000000 / 1000000000 = 1 / 10"
    by simp
  also have "fl (fl (3 / 10) - fl (1 / 10)) = 7205759403792793 / 36028797018963968"
    unfolding fl_3_10 fl_1_10 by (rule fl_difference)
  finally have one: "solBalanceChange (example_meta 100000000 300000000 [] [])
                       = Num (7205759403792793 / 36028797018963968)" .
  have two: "solBalanceChange (example_meta 100000000 300000000 [] [])
               \<noteq> Num ((300000000 - 100000000) / 1000000000)"
    unfolding one by simp
  have three: "solBalanceChange (example_meta 100000000 300000000 [] [])
                 \<noteq> Num (fl ((300000000 - 100000000) / 1000000000))"
    unfolding one by (simp add: fl_1_5)
  have "solBalanceChange (example_meta 9007199254740991 9007199254740990 [] [])
          = Num (fl (fl (rat_of_nat 9007199254740990 / 1000000000)
                     - fl (rat_of_nat 9007199254740991 / 1000000000)))"
    by (rule solBalanceChange_first) (simp_all add: example_meta_def)
  also have "rat_of_nat 9007199254740990 / 1000000000 = 900719925474099 / 100000000"
    by simp
  also have "rat_of_nat 9007199254740991 / 1000000000 = 9007199254740991 / 1000000000"
    by simp
  also have "fl (fl (900719925474099 / 100000000) - fl (9007199254740991 / 1000000000)) = 0"
    unfolding fl_large_1 fl_large_2 by (simp add: fl_def)
  finally have four: "solBalanceChange (example_meta 9007199254740991 9007199254740990 [] [])
                        = Num 0" .
  then have five: "logSolChange (solBalanceChange (example_meta 9007199254740991 9007199254740990 [] [])) = []"
    by (simp add: logSolChange_def)
  from one two three four five show ?thesis
    by (intro conjI)
qed

lemma tokenChanges_keys:
  "fst ` set (tokenChanges targetWallet m) = mint ` set (recorded targetWallet m)"
proof -
  have "fst ` set (tokenChanges targetWallet m) = set (map fst (tokenChanges targetWallet m))"
    by simp
  also have "map fst (tokenChanges targetWallet m) = first_occurrences (map mint (recorded targetWallet m))"
    by (subst tokenChanges_entries) (simp add: comp_def)
  also have "set \<dots> = mint ` set (recorded targetWallet m)"
    by (simp add: first_occurrences_def set_unseen)
  finally show ?thesis .
qed

text \<open>Every token line is about a mint of a post-state entry owned by the wallet.\<close>

lemma token_reports_owned:
  assumes run: "processTransactionForTrades P tx targetWallet s = (r, s')"
  shows "\<exists>new. console s' = console s @ new
          \<and> (\<forall>d \<in> set (emitted new). fst d = Native
                \<or> (\<exists>m e. meta tx = Some m \<and> e \<in> set (post_entries m)
                          \<and> owner e = Some targetWallet \<and> fst d = Token (mint e)))"
proof (cases "meta tx")
  case None
  with run have "console s' = console s @ [ErrMetaNotAvailable]"
    by (auto simp: processTransactionForTrades_def)
  then show ?thesis
    by (intro exI [of _ "[ErrMetaNotAvailable]"]) simp
next
  case (Some m)
  from trades_emitted [OF Some run] obtain new toks where
    c: "console s' = console s @ new"
    and e: "emitted new = emitted (logSolChange (solBalanceChange m)) @ toks"
    and p: "prefix toks (map reported (tokenChanges targetWallet m))"
    by blast
  have "fst d = Native
          \<or> (\<exists>m e. meta tx = Some m \<and> e \<in> set (post_entries m)
                    \<and> owner e = Some targetWallet \<and> fst d = Token (mint e))"
    if d: "d \<in> set (emitted new)" for d
  proof (cases "d \<in> set toks")
    case False
    with d e have "d \<in> set (emitted (logSolChange (solBalanceChange m)))"
      by simp
    then have "fst d = Native"
      by (auto simp: logSolChange_def split: if_splits)
    then show ?thesis ..
  next
    case True
    with p have "d \<in> set (map reported (tokenChanges targetWallet m))"
      using set_mono_prefix by blast
    then obtain k ch where kc: "(k, ch) \<in> set (tokenChanges targetWallet m)" and dk: "fst d = Token k"
      by auto
    from kc have "k \<in> fst ` set (tokenChanges targetWallet m)"
      by force
    then obtain en where en: "en \<in> set (recorded targetWallet m)" and k: "k = mint en"
      unfolding tokenChanges_keys by blast
    from en have "en \<in> set (post_entries m)" and "owner en = Some targetWallet"
      by (simp_all add: recorded_def)
    with Some dk k show ?thesis
      by blast
  qed
  with c show ?thesis
    by (intro exI [of _ new]) simp
qed

text \<open>
  Claim C6. Whatever a run of \<open>processTransactionForTrades\<close> reports is a change of the
  native asset or of a mint that occurs in a post-state entry owned by the watched wallet.
  So for a mint that no such entry has, nothing is reported, whatever the entries of other
  owners say.
\<close>

theorem only_owned_assets_emitted:
  assumes "processTransactionForTrades P tx targetWallet s = (r, s')"
  shows "\<exists>new. console s' = console s @ new
          \<and> (\<forall>d \<in> set (emitted new). fst d = Native
                \<or> (\<exists>m e. meta tx = Some m \<and> e \<in> set (post_entries m)
                          \<and> owner e = Some targetWallet \<and> fst d = Token (mint e)))
          \<and> (\<forall>k. (\<forall>m e. meta tx = Some m \<and> e \<in> set (post_entries m)
                           \<and> owner e = Some targetWallet \<longrightarrow> mint e \<noteq> k)
                   \<longrightarrow> (\<forall>d \<in> set (emitted new). fst d \<noteq> Token k))"
proof -
  from token_reports_owned [OF assms] obtain new where
    c: "console s' = console s @ new"
    and o: "\<forall>d \<in> set (emitted new). fst d = Native
                \<or> (\<exists>m e. meta tx = Some m \<and> e \<in> set (post_entries m)
                          \<and> owner e = Some targetWallet \<and> fst d = Token (mint e))"
    by blast
  have "\<forall>d \<in> set (emitted new). fst d \<noteq> Token k"
    if none: "\<forall>m e. meta tx = Some m \<and> e \<in> set (post_entries m)
                    \<and> owner e = Some targetWallet \<longrightarrow> mint e \<noteq> k" for k
  proof
    fix d assume "d \<in> set (emitted new)"
    with o have "fst d = Native
                \<or> (\<exists>m e. meta tx = Some m \<and> e \<in> set (post_entries m)
                          \<and> owner e = Some targetWallet \<and> fst d = Token (mint e))"
      by (rule bspec)
    then show "fst d \<noteq> Token k"
    proof
      assume "fst d = Native"
      then show ?thesis by simp
    next
      assume "\<exists>m e. meta tx = Some m \<and> e \<in> set (post_entries m)
                          \<and> owner e = Some targetWallet \<and> fst d = Token (mint e)"
      then obtain m e where "meta tx = Some m \<and> e \<in> set (post_entries m)
                          \<and> owner e = Some targetWallet" and d: "fst d = Token (mint e)"
        by blast
      with none have "mint e \<noteq> k" by blast
      with d show ?thesis by simp
    qed
  qed
  with c o show ?thesis
    by (intro exI [of _ new] conjI allI impI)
qed


text \<open>The theorem on a transaction where the wallet \<open>''W''\<close> gains 5 of mint \<open>''X''\<close> and another
  owner gains 100 of mint \<open>''Y''\<close>: nothing is reported for \<open>''Y''\<close>.\<close>

theorem only_owned_assets_emitted_witness:
  "\<exists>new. console (snd (processTransactionForTrades (example_platform AccountNull AccountNull)
                        \<lparr>meta = Some (example_meta 7 7 [token_entry 1 ''X'' ''W'' 10]
                                        [token_entry 1 ''X'' ''W'' 15,
                                         token_entry 2 ''Y'' ''Other'' 100])\<rparr>
                        ''W'' initial_state)) = console (initial_state :: string state) @ new
     \<and> Token ''Y'' \<notin> fst ` set (emitted new)"
proof -
  let ?m = "example_meta 7 7 [token_entry 1 ''X'' ''W'' 10]
              [token_entry 1 ''X'' ''W'' 15, token_entry 2 ''Y'' ''Other'' 100]"
  let ?tx = "\<lparr>meta = Some ?m\<rparr>"
  let ?run = "processTransactionForTrades (example_platform AccountNull AccountNull) ?tx ''W''
                (initial_state :: string state)"
  have run: "?run = (fst ?run, snd ?run)"
    by simp
  from only_owned_assets_emitted [OF run] obtain new where
    c: "console (snd ?run) = console (initial_state :: string state) @ new"
    and none: "\<forall>k. (\<forall>m e. meta ?tx = Some m \<and> e \<in> set (post_entries m)
                           \<and> owner e = Some ''W'' \<longrightarrow> mint e \<noteq> k)
                   \<longrightarrow> (\<forall>d \<in> set (emitted new). fst d \<noteq> Token k)"
    by blast
  have other: "\<forall>m e. meta ?tx = Some m \<and> e \<in> set (post_entries m) \<and> owner e = Some ''W''
               \<longrightarrow> mint e \<noteq> ''Y''"
    by (auto simp: post_entries_def example_meta_def token_entry_def)
  from none [THEN spec, of "''Y''", THEN mp, OF other]
  have "\<forall>d \<in> set (emitted new). fst d \<noteq> Token ''Y''" .
  then have "Token ''Y'' \<notin> fst ` set (emitted new)"
    by force
  with c show ?thesis
    by (intro exI [of _ new] conjI)
qed


subsection \<open>Which token lines are written\<close>

text \<open>What the try block returns does not depend on the state it starts from.\<close>

lemma resolve_try_fst: "fst (resolve_try P k s) = fst (resolve_try P k t)"
  by (simp add: resolve_try_def Let_def fetchMintDecimals_def
           split: option.splits account_response.splits sum.splits prod.splits)

lemma fetch_fst_cong:
  assumes "cache s k = cache t k"
  shows "fst (fetchTokenNameAndDecimals P k s) = fst (fetchTokenNameAndDecimals P k t)"
proof (cases "cache s k")
  case (Some v)
  with assms have "cache t k = Some v"
    by simp
  with Some show ?thesis
    by (simp add: fetchTokenNameAndDecimals_def)
next
  case None
  with assms have missing: "cache t k = None"
    by simp
  obtain q s1 where a: "resolve_try P k s = (q, s1)"
    by (cases "resolve_try P k s")
  obtain q' t1 where b: "resolve_try P k t = (q', t1)"
    by (cases "resolve_try P k t")
  from resolve_try_fst [of P k s t] a b have "q' = q"
    by simp
  with None missing a b show ?thesis
    by (simp add: fetchTokenNameAndDecimals_def split: sum.splits option.splits)
qed

lemma precision_cong:
  "cache s k = cache t k \<Longrightarrow> precision_of P s k = precision_of P t k"
  by (simp add: precision_of_def fetch_fst_cong [of s k t])

text \<open>A lookup changes the cache at most under the identifier looked up.\<close>

lemma fetch_other_keys:
  assumes "fetchTokenNameAndDecimals P k s = (r, s1)" and "j \<noteq> k"
  shows "cache s1 j = cache s j"
  using fetch_outcomes [OF assms(1)] assms(2)
  by (elim disjE exE conjE) simp_all

text \<open>The loop over the entries, exactly: it writes the token lines of the entries up to the
  first whose precision is above 100, where \<open>toFixed\<close> throws; it returns normally when
  there is no such entry.\<close>

lemma logTokenChanges_exact:
  assumes "distinct (map fst tc)" and "logTokenChanges P tc s = (r, s')"
  shows "\<exists>new. console s' = console s @ new
           \<and> emitted new = map reported (takeWhile (\<lambda>entry. precision_of P s (fst entry) \<le> 100) tc)
           \<and> r = (if list_all (\<lambda>entry. precision_of P s (fst entry) \<le> 100) tc
                  then Inr () else Inl RangeError)"
  using assms
proof (induction tc arbitrary: s)
  case Nil
  then show ?case by simp
next
  case (Cons entry rest)
  obtain k c where entry: "entry = (k, c)"
    by (cases entry)
  obtain q s1 where f: "fetchTokenNameAndDecimals P k s = (q, s1)"
    by (cases "fetchTokenNameAndDecimals P k s")
  from fetch_console [OF f] obtain tokenData e1
    where q: "q = Inr tokenData" and c1: "console s1 = console s @ e1" and em1: "emitted e1 = []"
    by blast
  have prec: "precision_of P s k = decimals tokenData"
    by (simp add: precision_of_def f q)
  show ?case
  proof (cases "100 < decimals tokenData")
    case True
    with Cons.prems(2) entry f q have "r = Inl RangeError" "s' = s1"
      by simp_all
    with c1 em1 True prec entry show ?thesis
      by (intro exI [of _ e1]) simp
  next
    case False
    let ?line = "LogToken (name tokenData) k (if 0 < c then Bought else Sold) \<bar>c\<bar>
                   (decimals tokenData) (symbol tokenData)"
    let ?s2 = "s1\<lparr>console := console s1 @ [?line]\<rparr>"
    from Cons.prems(2) entry f q False have run: "logTokenChanges P rest ?s2 = (r, s')"
      by simp
    from Cons.prems(1) have d: "distinct (map fst rest)"
      by simp
    from Cons.IH [OF d run] obtain new2 where
      c2: "console s' = console ?s2 @ new2"
      and e2: "emitted new2 = map reported (takeWhile (\<lambda>entry. precision_of P ?s2 (fst entry) \<le> 100) rest)"
      and r2: "r = (if list_all (\<lambda>entry. precision_of P ?s2 (fst entry) \<le> 100) rest
                    then Inr () else Inl RangeError)"
      by blast
    have same: "precision_of P ?s2 (fst x) = precision_of P s (fst x)" if "x \<in> set rest" for x
    proof -
      from that Cons.prems(1) entry have "fst x \<noteq> k"
        by auto
      from fetch_other_keys [OF f this] have "cache ?s2 (fst x) = cache s (fst x)"
        by simp
      then show ?thesis
        by (rule precision_cong)
    qed
    have tw: "takeWhile (\<lambda>entry. precision_of P ?s2 (fst entry) \<le> 100) rest
                = takeWhile (\<lambda>entry. precision_of P s (fst entry) \<le> 100) rest"
      by (rule takeWhile_cong) (simp_all add: same)
    have la: "list_all (\<lambda>entry. precision_of P ?s2 (fst entry) \<le> 100) rest
                = list_all (\<lambda>entry. precision_of P s (fst entry) \<le> 100) rest"
      by (simp add: list_all_iff same)
    have "console s' = console s @ (e1 @ [?line] @ new2)"
      using c1 c2 by simp
    moreover have "emitted (e1 @ [?line] @ new2) = reported (k, c) # emitted new2"
      by (simp add: emitted_append em1)
    ultimately show ?thesis
      using e2 r2 entry False prec unfolding tw la
      by (intro exI [of _ "e1 @ [?line] @ new2"]) simp
  qed
qed

lemma distinct_tokenChanges: "distinct (map fst (tokenChanges targetWallet m))"
proof -
  have "map fst (tokenChanges targetWallet m) = first_occurrences (map mint (recorded targetWallet m))"
    by (subst tokenChanges_entries) (simp add: comp_def)
  then show ?thesis
    by (simp add: first_occurrences_def distinct_unseen)
qed

lemma reported_not_native:
  "filter (\<lambda>d. fst d \<noteq> Native) (map reported xs) = map reported xs"
  by (induction xs) auto

lemma trades_exact:
  assumes m: "meta tx = Some m"
    and run: "processTransactionForTrades P tx targetWallet s = (r, s')"
  shows "\<exists>new. console s' = console s @ new
           \<and> filter (\<lambda>d. fst d \<noteq> Native) (emitted new)
               = map reported (takeWhile (\<lambda>entry. precision_of P s (fst entry) \<le> 100)
                                (tokenChanges targetWallet m))
           \<and> r = (if list_all (\<lambda>entry. precision_of P s (fst entry) \<le> 100)
                       (tokenChanges targetWallet m)
                  then Inr () else Inl RangeError)"
proof -
  let ?tc = "tokenChanges targetWallet m"
  let ?s1 = "s\<lparr>console := console s @ [LogProcessing] @ logSolChange (solBalanceChange m)\<rparr>"
  have prec: "precision_of P ?s1 k = precision_of P s k" for k
    by (rule precision_cong) simp
  obtain q s2 where l: "logTokenChanges P ?tc ?s1 = (q, s2)"
    by (cases "logTokenChanges P ?tc ?s1")
  from logTokenChanges_exact [OF distinct_tokenChanges l] obtain new2 where
    c2: "console s2 = console ?s1 @ new2"
    and e2: "emitted new2 = map reported (takeWhile (\<lambda>entry. precision_of P s (fst entry) \<le> 100) ?tc)"
    and r2: "q = (if list_all (\<lambda>entry. precision_of P s (fst entry) \<le> 100) ?tc
                  then Inr () else Inl RangeError)"
    unfolding prec by blast
  show ?thesis
  proof (cases q)
    case (Inl e)
    with run m l have rs: "r = Inl e" "s' = s2"
      by (simp_all add: processTransactionForTrades_def Let_def)
    then have "console s' = console s @ ([LogProcessing] @ logSolChange (solBalanceChange m) @ new2)"
      using c2 by simp
    moreover have "filter (\<lambda>d. fst d \<noteq> Native)
                     (emitted ([LogProcessing] @ logSolChange (solBalanceChange m) @ new2))
                     = map reported (takeWhile (\<lambda>entry. precision_of P s (fst entry) \<le> 100) ?tc)"
      by (simp add: emitted_append native_logSolChange e2 reported_not_native)
    ultimately show ?thesis
      using rs r2 Inl
      by (intro exI [of _ "[LogProcessing] @ logSolChange (solBalanceChange m) @ new2"]) simp
  next
    case (Inr u)
    with run m l have rs: "r = Inr ()" "s' = s2\<lparr>console := console s2 @ [LogNewline]\<rparr>"
      by (simp_all add: processTransactionForTrades_def Let_def)
    then have "console s' = console s @ ([LogProcessing] @ logSolChange (solBalanceChange m)
                                          @ new2 @ [LogNewline])"
      using c2 by simp
    moreover have "filter (\<lambda>d. fst d \<noteq> Native)
                     (emitted ([LogProcessing] @ logSolChange (solBalanceChange m) @ new2 @ [LogNewline]))
                     = map reported (takeWhile (\<lambda>entry. precision_of P s (fst entry) \<le> 100) ?tc)"
      by (simp add: emitted_append native_logSolChange e2 reported_not_native)
    ultimately show ?thesis
      using rs r2 Inr
      by (intro exI [of _ "[LogProcessing] @ logSolChange (solBalanceChange m) @ new2 @ [LogNewline]"])
         (simp split: if_splits)
  qed
qed

text \<open>
  Claim C5, as the code has it. Of the post-state entries owned by the watched wallet the
  loop records those whose change is not zero. The map then holds one entry for each mint
  among them, in the order in which the mints first occur, with the change of the last
  recorded entry of that mint: a later entry overwrites an earlier one only if its own
  change is not zero. The token lines report the entries of the map in that order: all of
  them, and the run returns normally, when every resolved precision is at most 100;
  otherwise \<open>toFixed\<close> throws a \<open>RangeError\<close> at the first entry whose precision is above 100,
  and the lines written are those of the entries before it.
\<close>

theorem last_recorded_change_reported:
  assumes "meta tx = Some m"
    and "processTransactionForTrades P tx targetWallet s = (r, s')"
  shows "tokenChanges targetWallet m =
           map (\<lambda>k. (k, balanceChange (pre_entries m)
                            (last (filter (\<lambda>e. mint e = k) (recorded targetWallet m)))))
             (first_occurrences (map mint (recorded targetWallet m)))
         \<and> (\<exists>new. console s' = console s @ new
               \<and> filter (\<lambda>d. fst d \<noteq> Native) (emitted new)
                   = map reported (takeWhile (\<lambda>entry. precision_of P s (fst entry) \<le> 100)
                                    (tokenChanges targetWallet m)))
         \<and> r = (if list_all (\<lambda>entry. precision_of P s (fst entry) \<le> 100)
                     (tokenChanges targetWallet m)
                then Inr () else Inl RangeError)"
proof (intro conjI)
  show "tokenChanges targetWallet m =
           map (\<lambda>k. (k, balanceChange (pre_entries m)
                            (last (filter (\<lambda>e. mint e = k) (recorded targetWallet m)))))
             (first_occurrences (map mint (recorded targetWallet m)))"
    by (rule tokenChanges_entries)
  from trades_exact [OF assms] obtain new where
    c: "console s' = console s @ new"
    and e: "filter (\<lambda>d. fst d \<noteq> Native) (emitted new)
              = map reported (takeWhile (\<lambda>entry. precision_of P s (fst entry) \<le> 100)
                                (tokenChanges targetWallet m))"
    and r: "r = (if list_all (\<lambda>entry. precision_of P s (fst entry) \<le> 100)
                     (tokenChanges targetWallet m)
                then Inr () else Inl RangeError)"
    by (elim exE conjE)
  from c e show "\<exists>new. console s' = console s @ new
               \<and> filter (\<lambda>d. fst d \<noteq> Native) (emitted new)
                   = map reported (takeWhile (\<lambda>entry. precision_of P s (fst entry) \<le> 100)
                                    (tokenChanges targetWallet m))"
    by (intro exI [of _ new] conjI)
  from r show "r = (if list_all (\<lambda>entry. precision_of P s (fst entry) \<le> 100)
                     (tokenChanges targetWallet m)
                then Inr () else Inl RangeError)" .
qed

text \<open>The theorem on a transaction in which two accounts of the wallet hold mint \<open>''X''\<close>: the
  first goes from 10 to 15, the second from 7 to 4. The map has the one entry of the
  second. Where the chain has no metadata (fallback, precision 0) the run returns normally
  and the one token line reports Sold 3. Where the mint account gives precision 200 the run
  throws and no token line is written.\<close>

theorem last_recorded_change_reported_witness:
  "tokenChanges ''W''
     (example_meta 7 7 [token_entry 3 ''X'' ''W'' 10, token_entry 4 ''X'' ''W'' 7]
        [token_entry 3 ''X'' ''W'' 15, token_entry 4 ''X'' ''W'' 4]) = [(''X'', - 3)]
   \<and> fst (processTransactionForTrades (example_platform AccountNull AccountNull)
            \<lparr>meta = Some (example_meta 7 7 [token_entry 3 ''X'' ''W'' 10, token_entry 4 ''X'' ''W'' 7]
                            [token_entry 3 ''X'' ''W'' 15, token_entry 4 ''X'' ''W'' 4])\<rparr>
            ''W'' initial_state) = Inr ()
   \<and> (\<exists>new. console (snd (processTransactionForTrades (example_platform AccountNull AccountNull)
            \<lparr>meta = Some (example_meta 7 7 [token_entry 3 ''X'' ''W'' 10, token_entry 4 ''X'' ''W'' 7]
                            [token_entry 3 ''X'' ''W'' 15, token_entry 4 ''X'' ''W'' 4])\<rparr>
            ''W'' initial_state)) = console (initial_state :: string state) @ new
          \<and> filter (\<lambda>d. fst d \<noteq> Native) (emitted new) = [(Token ''X'', Sold, Num 3)])
   \<and> fst (processTransactionForTrades
            (example_platform (AccountInfo usdc_metadata_account) (AccountInfo (mint_account 200)))
            \<lparr>meta = Some (example_meta 7 7 [token_entry 3 ''X'' ''W'' 10, token_entry 4 ''X'' ''W'' 7]
                            [token_entry 3 ''X'' ''W'' 15, token_entry 4 ''X'' ''W'' 4])\<rparr>
            ''W'' initial_state) = Inl RangeError
   \<and> (\<exists>new. console (snd (processTransactionForTrades
            (example_platform (AccountInfo usdc_metadata_account) (AccountInfo (mint_account 200)))
            \<lparr>meta = Some (example_meta 7 7 [token_entry 3 ''X'' ''W'' 10, token_entry 4 ''X'' ''W'' 7]
                            [token_entry 3 ''X'' ''W'' 15, token_entry 4 ''X'' ''W'' 4])\<rparr>
            ''W'' initial_state)) = console (initial_state :: string state) @ new
          \<and> filter (\<lambda>d. fst d \<noteq> Native) (emitted new) = [])"
proof -
  let ?pres = "[token_entry 3 ''X'' ''W'' 10, token_entry 4 ''X'' ''W'' 7]"
  let ?e1 = "token_entry 3 ''X'' ''W'' 15" and ?e2 = "token_entry 4 ''X'' ''W'' 4"
  let ?m = "example_meta 7 7 ?pres [?e1, ?e2]"
  let ?tx = "\<lparr>meta = Some ?m\<rparr>"
  let ?P = "example_platform AccountNull AccountNull"
  let ?Q = "example_platform (AccountInfo usdc_metadata_account) (AccountInfo (mint_account 200))"
  let ?runP = "processTransactionForTrades ?P ?tx ''W'' (initial_state :: string state)"
  let ?runQ = "processTransactionForTrades ?Q ?tx ''W'' (initial_state :: string state)"
  have tx: "meta ?tx = Some ?m"
    by simp
  have runP: "?runP = (fst ?runP, snd ?runP)" and runQ: "?runQ = (fst ?runQ, snd ?runQ)"
    by simp_all
  have pre: "pre_entries ?m = ?pres" and post: "post_entries ?m = [?e1, ?e2]"
    by (simp_all add: pre_entries_def post_entries_def example_meta_def)
  have b1: "balanceChange ?pres ?e1 = 5"
    by (simp add: balanceChange_def Let_def or0_def token_entry_def fl_5)
  have b2: "balanceChange ?pres ?e2 = - 3"
    by (simp add: balanceChange_def Let_def or0_def token_entry_def fl_minus fl_3)
  have own: "owner ?e1 = Some ''W''" "owner ?e2 = Some ''W''" "mint ?e1 = ''X''" "mint ?e2 = ''X''"
    by (simp_all add: token_entry_def)
  have rec: "recorded ''W'' ?m = [?e1, ?e2]"
    unfolding recorded_def pre post by (simp add: b1 b2 own)
  have keys: "first_occurrences (map mint (recorded ''W'' ?m)) = [''X'']"
    unfolding rec by (simp add: first_occurrences_def own)
  have lst: "last (filter (\<lambda>e. mint e = ''X'') (recorded ''W'' ?m)) = ?e2"
    unfolding rec by (simp add: own)
  note instP = last_recorded_change_reported [OF tx runP]
  note instQ = last_recorded_change_reported [OF tx runQ]
  from instP [THEN conjunct1]
  have tc: "tokenChanges ''W'' ?m = [(''X'', - 3)]"
    unfolding keys by (simp add: lst pre b2)
  have miss: "cache (initial_state :: string state) ''X'' = None"
    by (simp add: initial_state_def)
  have "fst (fetchTokenNameAndDecimals ?P ''X'' initial_state) = Inr sentinel"
    using fetch_absent [of initial_state "''X''" ?P "''X''" "''PDA''"] miss
    by (simp add: example_platform_simps)
  then have precP: "precision_of ?P initial_state ''X'' = 0"
    by (simp add: precision_of_def sentinel_def)
  let ?runX = "fetchTokenNameAndDecimals ?Q ''X'' (initial_state :: string state)"
  have res: "resolves_to ?Q ''X'' \<lparr>name = [0x55, 0x53, 0x44, 0x43], symbol = [0x55, 0x24], decimals = 200\<rparr>"
    using usdc_resolves [of "''X''" 200] by simp
  have "?runX = (fst ?runX, snd ?runX)"
    by simp
  from fetch_resolves(1) [OF miss res this]
  have precQ: "precision_of ?Q initial_state ''X'' = 200"
    by (simp add: precision_of_def)
  from instP [THEN conjunct2, THEN conjunct2]
  have rP: "fst ?runP = Inr ()"
    unfolding tc by (simp add: precP)
  from instP [THEN conjunct2, THEN conjunct1]
  have lP: "\<exists>new. console (snd ?runP) = console (initial_state :: string state) @ new
              \<and> filter (\<lambda>d. fst d \<noteq> Native) (emitted new) = [(Token ''X'', Sold, Num 3)]"
    unfolding tc by (simp add: precP)
  from instQ [THEN conjunct2, THEN conjunct2]
  have rQ: "fst ?runQ = Inl RangeError"
    unfolding tc by (simp add: precQ)
  from instQ [THEN conjunct2, THEN conjunct1]
  have lQ: "\<exists>new. console (snd ?runQ) = console (initial_state :: string state) @ new
              \<and> filter (\<lambda>d. fst d \<noteq> Native) (emitted new) = []"
    unfolding tc by (simp add: precQ)
  from tc rP lP rQ lQ show ?thesis
    by (intro conjI)
qed


text \<open>
  Claim C5 as stated fails when the later entry did not change. Two accounts of the wallet
  hold mint \<open>''X''\<close>; the first goes from 10 to 15, the second stays at 7. The later entry
  does not overwrite: the map holds the change of the first entry, 5, while the change of
  the last entry of that mint is 0.
\<close>

theorem last_entry_counterexample:
  "tokenChanges ''W''
     (example_meta 7 7 [token_entry 3 ''X'' ''W'' 10, token_entry 4 ''X'' ''W'' 7]
        [token_entry 3 ''X'' ''W'' 15, token_entry 4 ''X'' ''W'' 7]) = [(''X'', 5)]
   \<and> balanceChange [token_entry 3 ''X'' ''W'' 10, token_entry 4 ''X'' ''W'' 7]
        (token_entry 3 ''X'' ''W'' 15) = 5
   \<and> balanceChange [token_entry 3 ''X'' ''W'' 10, token_entry 4 ''X'' ''W'' 7]
        (token_entry 4 ''X'' ''W'' 7) = 0
   \<and> last (filter (\<lambda>e. mint e = ''X'' \<and> owner e = Some ''W'')
             [token_entry 3 ''X'' ''W'' 15, token_entry 4 ''X'' ''W'' 7])
       = token_entry 4 ''X'' ''W'' 7"
proof -
  let ?pres = "[token_entry 3 ''X'' ''W'' 10, token_entry 4 ''X'' ''W'' 7]"
  let ?e1 = "token_entry 3 ''X'' ''W'' 15" and ?e2 = "token_entry 4 ''X'' ''W'' 7"
  have b1: "balanceChange ?pres ?e1 = 5"
    by (simp add: balanceChange_def Let_def or0_def token_entry_def fl_5)
  have b2: "balanceChange ?pres ?e2 = 0"
    by (simp add: balanceChange_def Let_def or0_def token_entry_def fl_def)
  have own: "owner ?e1 = Some ''W''" "owner ?e2 = Some ''W''" "mint ?e1 = ''X''" "mint ?e2 = ''X''"
    by (simp_all add: token_entry_def)
  have tc: "tokenChanges ''W'' (example_meta 7 7 ?pres [?e1, ?e2]) = [(''X'', 5)]"
    by (simp add: tokenChanges_def example_meta_def b1 b2 own)
  have lst: "last (filter (\<lambda>e. mint e = ''X'' \<and> owner e = Some ''W'') [?e1, ?e2]) = ?e2"
    by (simp add: own)
  from tc b1 b2 lst show ?thesis
    by (intro conjI)
qed

end
